theory Spec2Isabelle
  imports Main "HOL-Library.Multiset" "HOL-Library.Product_Lexorder"
begin

section \<open>HRMS Lite: the employee and attendance API of \<open>backend/app/main.py\<close>\<close>

text \<open>
  The program is a single module: two SQLAlchemy tables (\<open>employees\<close>, \<open>attendance\<close>),
  the pydantic schemas of the request bodies and the FastAPI handlers of the nine API
  routes. The embedding keeps that shape. A table is the list of its rows, the database is a record of the two tables and
  their id sequences, and a handler is a function from the store to a reply and the store
  it leaves behind. \<open>raise HTTPException(...)\<close> and the exceptions of the storage layer are
  values of the type \<open>failure\<close>.

  Python strings are modelled by \<open>string\<close>; timestamps and primary keys by \<open>int\<close>.
\<close>

subsection \<open>Rows (the SQLAlchemy models, lines 51-89)\<close>

datatype attendance_status = Present | Absent

text \<open>A calendar date; \<open>date_key\<close> is the chronological order that SQL compares dates by.\<close>

datatype date = Date (year: nat) (month: nat) (day: nat)

definition date_key :: "date \<Rightarrow> nat \<times> nat \<times> nat" where
  "date_key d = (year d, month d, day d)"

record Employee =
  e_id :: int
  e_employee_id :: string
  e_full_name :: string
  e_email :: string
  e_department :: "string option"
  e_created_at :: int

record Attendance =
  a_id :: int
  a_employee_id :: int
  a_date :: date
  a_status :: attendance_status

text \<open>
  The database. \<open>employees_id_seq\<close> and \<open>attendance_id_seq\<close> are the counters behind the
  two \<open>Integer primary_key=True\<close> columns: the next id each table hands out.
\<close>

record store =
  employees :: "Employee list"
  attendance :: "Attendance list"
  employees_id_seq :: int
  attendance_id_seq :: int

subsection \<open>Request bodies (the pydantic schemas, lines 97-140)\<close>

record EmployeeCreate =
  ec_employee_id :: string
  ec_full_name :: string
  ec_email :: string
  ec_department :: "string option"

record AttendanceCreate =
  ac_employee_id :: int
  ac_date :: date
  ac_status :: attendance_status

text \<open>
  \<open>EmployeeUpdate\<close>: the three fields are \<open>Optional\<close> with default \<open>None\<close>, so a field left
  out of the JSON body and a field sent as \<open>null\<close> both arrive as \<open>None\<close>.
\<close>

record EmployeeUpdate =
  eu_full_name :: "string option"
  eu_email :: "string option"
  eu_department :: "string option"

record AttendanceUpdate =
  au_status :: attendance_status

text \<open>
  The \<open>Field(...)\<close> constraints. \<open>EmailStr\<close> is checked by the email-validator package,
  which is not part of the repository: the predicate \<open>emailstr\<close> stands for it.
\<close>

definition max_length :: "nat \<Rightarrow> string option \<Rightarrow> bool" where
  "max_length n v = (case v of None \<Rightarrow> True | Some x \<Rightarrow> length x \<le> n)"

definition EmployeeCreate_valid :: "(string \<Rightarrow> bool) \<Rightarrow> EmployeeCreate \<Rightarrow> bool" where
  "EmployeeCreate_valid emailstr b \<longleftrightarrow>
     1 \<le> length (ec_employee_id b) \<and> length (ec_employee_id b) \<le> 50 \<and>
     1 \<le> length (ec_full_name b) \<and> length (ec_full_name b) \<le> 255 \<and>
     emailstr (ec_email b) \<and>
     max_length 100 (ec_department b)"

definition EmployeeUpdate_valid :: "(string \<Rightarrow> bool) \<Rightarrow> EmployeeUpdate \<Rightarrow> bool" where
  "EmployeeUpdate_valid emailstr b \<longleftrightarrow>
     max_length 255 (eu_full_name b) \<and>
     (case eu_email b of None \<Rightarrow> True | Some m \<Rightarrow> emailstr m) \<and>
     max_length 100 (eu_department b)"

subsection \<open>Failures and replies\<close>

text \<open>
  \<open>HTTPException code detail\<close> is what the handlers raise themselves.
  \<open>RequestValidationError\<close> is FastAPI's rejection of a parameter that does not parse.
  \<open>IntegrityError\<close> is the storage layer rejecting a statement that breaks a declared
  constraint, and \<open>DataError\<close> its rejection of a malformed statement; no handler has a
  \<open>try\<close>, so both leave the handler as they are.

  A successful reply is the status code of the route decorator with the returned body.
\<close>

datatype failure =
  HTTPException nat string
  | RequestValidationError
  | IntegrityError
  | DataError

type_synonym 'a reply = "failure + nat \<times> 'a"

definition HTTP_200_OK :: nat where "HTTP_200_OK = 200"
definition HTTP_201_CREATED :: nat where "HTTP_201_CREATED = 201"
definition HTTP_204_NO_CONTENT :: nat where "HTTP_204_NO_CONTENT = 204"
definition HTTP_400_BAD_REQUEST :: nat where "HTTP_400_BAD_REQUEST = 400"
definition HTTP_404_NOT_FOUND :: nat where "HTTP_404_NOT_FOUND = 404"

subsection \<open>The storage layer\<close>

text \<open>
  \<open>query.filter(p).first()\<close> is \<open>find p rows\<close>; \<open>query.filter(p)\<close> is \<open>filter p rows\<close>.

  \<open>order_by(col.desc())\<close> sorts by a key, largest first. SQL leaves the order of rows
  with equal keys open; the model keeps them in table order.
\<close>

fun insert_desc :: "('a \<Rightarrow> 'k::linorder) \<Rightarrow> 'a \<Rightarrow> 'a list \<Rightarrow> 'a list" where
  "insert_desc f x [] = [x]"
| "insert_desc f x (y # ys) =
     (if f y \<le> f x then x # y # ys else y # insert_desc f x ys)"

definition order_by_desc :: "('a \<Rightarrow> 'k::linorder) \<Rightarrow> 'a list \<Rightarrow> 'a list" where
  "order_by_desc f rows = foldr (insert_desc f) rows []"

text \<open>
  \<open>INSERT INTO employees\<close>. The new row takes the next id of the sequence and \<open>now\<close>, the
  server's clock, as \<open>created_at\<close> (line 62). The table declares \<open>id\<close> the primary key
  (line 54) and \<open>employee_id\<close> and \<open>email\<close> unique (lines 55 and 57): a row that repeats
  one of the three is rejected. The id a rejected row took is not handed out again.
\<close>

definition employees_unique_violation :: "Employee list \<Rightarrow> string \<Rightarrow> string \<Rightarrow> bool" where
  "employees_unique_violation rows eid mail \<longleftrightarrow>
     (\<exists>r \<in> set rows. e_employee_id r = eid \<or> e_email r = mail)"

definition insert_employee ::
  "int \<Rightarrow> EmployeeCreate \<Rightarrow> store \<Rightarrow> (failure + Employee) \<times> store" where
  "insert_employee now b s =
     (let row = \<lparr> e_id = employees_id_seq s,
                  e_employee_id = ec_employee_id b,
                  e_full_name = ec_full_name b,
                  e_email = ec_email b,
                  e_department = ec_department b,
                  e_created_at = now \<rparr>;
          s' = s\<lparr> employees_id_seq := employees_id_seq s + 1 \<rparr>
      in if (\<exists>r \<in> set (employees s). e_id r = e_id row) \<or>
            employees_unique_violation (employees s) (ec_employee_id b) (ec_email b)
         then (Inl IntegrityError, s')
         else (Inr row, s'\<lparr> employees := employees s @ [row] \<rparr>))"

text \<open>
  \<open>UPDATE employees SET ... WHERE id = i\<close>. \<open>assign_fields\<close> is lines 231-236: each of
  the three mutable attributes is assigned when the payload's value \<open>is not None\<close>, and
  the statement sets the assigned columns of the row the handler loaded. The unique index
  on \<open>email\<close> rejects an email that changes to one another row holds.
\<close>

definition assign_fields :: "EmployeeUpdate \<Rightarrow> Employee \<Rightarrow> Employee" where
  "assign_fields employee_in r =
     r\<lparr> e_full_name := (case eu_full_name employee_in of
                           Some v \<Rightarrow> v | None \<Rightarrow> e_full_name r),
        e_email := (case eu_email employee_in of
                      Some v \<Rightarrow> v | None \<Rightarrow> e_email r),
        e_department := (case eu_department employee_in of
                           Some v \<Rightarrow> Some v | None \<Rightarrow> e_department r) \<rparr>"

definition email_violation :: "Employee list \<Rightarrow> Employee \<Rightarrow> Employee \<Rightarrow> bool" where
  "email_violation rows old new \<longleftrightarrow>
     e_email new \<noteq> e_email old \<and>
     (\<exists>r \<in> set rows. e_id r \<noteq> e_id old \<and> e_email r = e_email new)"

definition update_employee_row :: "Employee \<Rightarrow> EmployeeUpdate \<Rightarrow> store \<Rightarrow> failure + store" where
  "update_employee_row employee employee_in s =
     (if email_violation (employees s) employee (assign_fields employee_in employee)
      then Inl IntegrityError
      else Inr (s\<lparr> employees :=
                  map (\<lambda>r. if e_id r = e_id employee then assign_fields employee_in r else r)
                      (employees s) \<rparr>))"

text \<open>
  Deleting an employee. The relationship \<open>attendance_records\<close> has
  \<open>cascade="all, delete-orphan"\<close> and the foreign key \<open>ondelete="CASCADE"\<close> (lines 65-69
  and 79): the attendance rows of the employee go in the same transaction.
\<close>

definition delete_employee_row :: "int \<Rightarrow> store \<Rightarrow> store" where
  "delete_employee_row i s =
     s\<lparr> employees := filter (\<lambda>r. e_id r \<noteq> i) (employees s),
        attendance := filter (\<lambda>a. a_employee_id a \<noteq> i) (attendance s) \<rparr>"

text \<open>
  \<open>INSERT INTO attendance\<close>. \<open>id\<close> is the primary key (line 76), the foreign key needs an
  employee row with the referenced id, and \<open>uq_employee_date\<close> (line 74) rejects a second
  row for an employee and date. As for employees, a rejected row uses up its id.
\<close>

definition attendance_violation :: "store \<Rightarrow> int \<Rightarrow> date \<Rightarrow> bool" where
  "attendance_violation s emp d \<longleftrightarrow>
     (\<forall>r \<in> set (employees s). e_id r \<noteq> emp) \<or>
     (\<exists>a \<in> set (attendance s). a_employee_id a = emp \<and> a_date a = d)"

definition insert_attendance ::
  "AttendanceCreate \<Rightarrow> store \<Rightarrow> (failure + Attendance) \<times> store" where
  "insert_attendance b s =
     (let row = \<lparr> a_id = attendance_id_seq s,
                  a_employee_id = ac_employee_id b,
                  a_date = ac_date b,
                  a_status = ac_status b \<rparr>;
          s' = s\<lparr> attendance_id_seq := attendance_id_seq s + 1 \<rparr>
      in if (\<exists>a \<in> set (attendance s). a_id a = a_id row) \<or>
            attendance_violation s (ac_employee_id b) (ac_date b)
         then (Inl IntegrityError, s')
         else (Inr row, s'\<lparr> attendance := attendance s @ [row] \<rparr>))"

definition update_attendance_row :: "int \<Rightarrow> attendance_status \<Rightarrow> store \<Rightarrow> store" where
  "update_attendance_row i st s =
     s\<lparr> attendance := map (\<lambda>a. if a_id a = i then a\<lparr> a_status := st \<rparr> else a) (attendance s) \<rparr>"

definition delete_attendance_row :: "int \<Rightarrow> store \<Rightarrow> store" where
  "delete_attendance_row i s = s\<lparr> attendance := filter (\<lambda>a. a_id a \<noteq> i) (attendance s) \<rparr>"

subsection \<open>Employee handlers (lines 172-291)\<close>

text \<open>
  Every handler that writes reads first and commits last. The two halves are separate
  definitions, so that a commit can also be run on a store that another request changed
  after the reads; the handler itself runs both on the store it is given.

  \<open>create_employee\<close>, lines 177-204. The pre-check is the two \<open>first()\<close> queries and
  their \<open>raise\<close>; the commit is \<open>db.add\<close>, \<open>db.commit\<close>, \<open>db.refresh\<close> and the return.
\<close>

definition create_employee_precheck :: "EmployeeCreate \<Rightarrow> store \<Rightarrow> failure option" where
  "create_employee_precheck employee_in s =
     (case find (\<lambda>r. e_employee_id r = ec_employee_id employee_in) (employees s) of
        Some existing_by_id \<Rightarrow>
          Some (HTTPException HTTP_400_BAD_REQUEST ''Employee ID already exists'')
      | None \<Rightarrow>
          (case find (\<lambda>r. e_email r = ec_email employee_in) (employees s) of
             Some existing_by_email \<Rightarrow>
               Some (HTTPException HTTP_400_BAD_REQUEST ''Email is already in use'')
           | None \<Rightarrow> None))"

definition create_employee_commit ::
  "int \<Rightarrow> EmployeeCreate \<Rightarrow> store \<Rightarrow> Employee reply \<times> store" where
  "create_employee_commit now employee_in s =
     (case insert_employee now employee_in s of
        (Inl err, s') \<Rightarrow> (Inl err, s')
      | (Inr db_employee, s') \<Rightarrow> (Inr (HTTP_201_CREATED, db_employee), s'))"

definition create_employee ::
  "int \<Rightarrow> EmployeeCreate \<Rightarrow> store \<Rightarrow> Employee reply \<times> store" where
  "create_employee now employee_in s =
     (case create_employee_precheck employee_in s of
        Some err \<Rightarrow> (Inl err, s)
      | None \<Rightarrow> create_employee_commit now employee_in s)"

text \<open>
  \<open>update_employee\<close>, lines 211-240. \<open>if employee_in.email and ...\<close> tests the email
  for truth: \<open>None\<close> and the empty string both skip the uniqueness query. The commit is
  the three assignments, \<open>db.commit\<close>, \<open>db.refresh\<close> and the return.
\<close>

definition truthy :: "string option \<Rightarrow> bool" where
  "truthy v = (case v of None \<Rightarrow> False | Some x \<Rightarrow> x \<noteq> [])"

definition update_employee_precheck ::
  "int \<Rightarrow> EmployeeUpdate \<Rightarrow> store \<Rightarrow> failure + Employee" where
  "update_employee_precheck employee_id employee_in s =
     (case find (\<lambda>r. e_id r = employee_id) (employees s) of
        None \<Rightarrow> Inl (HTTPException HTTP_404_NOT_FOUND ''Employee not found'')
      | Some employee \<Rightarrow>
          (if truthy (eu_email employee_in) \<and> eu_email employee_in \<noteq> Some (e_email employee)
           then (case find (\<lambda>r. Some (e_email r) = eu_email employee_in) (employees s) of
                   Some existing_by_email \<Rightarrow>
                     Inl (HTTPException HTTP_400_BAD_REQUEST ''Email is already in use'')
                 | None \<Rightarrow> Inr employee)
           else Inr employee))"

definition update_employee_commit ::
  "EmployeeUpdate \<Rightarrow> Employee \<Rightarrow> store \<Rightarrow> Employee reply \<times> store" where
  "update_employee_commit employee_in employee s =
     (case update_employee_row employee employee_in s of
        Inl err \<Rightarrow> (Inl err, s)
      | Inr s' \<Rightarrow> (Inr (HTTP_200_OK, assign_fields employee_in employee), s'))"

definition update_employee ::
  "int \<Rightarrow> EmployeeUpdate \<Rightarrow> store \<Rightarrow> Employee reply \<times> store" where
  "update_employee employee_id employee_in s =
     (case update_employee_precheck employee_id employee_in s of
        Inl err \<Rightarrow> (Inl err, s)
      | Inr employee \<Rightarrow> update_employee_commit employee_in employee s)"

text \<open>\<open>delete_employee\<close>, lines 282-290.\<close>

definition delete_employee :: "int \<Rightarrow> store \<Rightarrow> unit reply \<times> store" where
  "delete_employee employee_id s =
     (case find (\<lambda>r. e_id r = employee_id) (employees s) of
        None \<Rightarrow> (Inl (HTTPException HTTP_404_NOT_FOUND ''Employee not found''), s)
      | Some employee \<Rightarrow>
          (Inr (HTTP_204_NO_CONTENT, ()), delete_employee_row (e_id employee) s))"

text \<open>
  \<open>list_employees\<close>, lines 247-275.

  \<open>Employee.full_name.ilike(f"%{full_name}%")\<close> is SQL's \<open>LIKE\<close> on the lower-cased
  operands: in the pattern \<open>%\<close> stands for any run of characters and \<open>_\<close> for any one
  character, and every other character for itself. Lower-casing is modelled on the
  letters A to Z. Which character escapes a wildcard depends on the database engine; the
  model has none.
\<close>

definition lower_char :: "char \<Rightarrow> char" where
  "lower_char c =
     (case map_of (zip ''ABCDEFGHIJKLMNOPQRSTUVWXYZ'' ''abcdefghijklmnopqrstuvwxyz'') c of
        Some l \<Rightarrow> l
      | None \<Rightarrow> c)"

definition lower :: "string \<Rightarrow> string" where
  "lower = map lower_char"

fun like :: "string \<Rightarrow> string \<Rightarrow> bool" where
  "like [] [] = True"
| "like [] (c # cs) = False"
| "like (p # ps) [] = (p = CHR ''%'' \<and> like ps [])"
| "like (p # ps) (c # cs) =
     (if p = CHR ''%'' then like ps (c # cs) \<or> like (p # ps) cs
      else (p = CHR ''_'' \<or> p = c) \<and> like ps cs)"

definition ilike :: "string \<Rightarrow> string \<Rightarrow> bool" where
  "ilike pattern v = like (lower pattern) (lower v)"

text \<open>
  \<open>offset(skip).limit(limit)\<close>: the database skips and takes row counts. What a negative
  count does is the engine's choice; the model follows PostgreSQL, which rejects the
  statement.
\<close>

definition list_employees ::
  "int \<Rightarrow> int \<Rightarrow> int option \<Rightarrow> string option \<Rightarrow> string option \<Rightarrow> string option \<Rightarrow>
   string option \<Rightarrow> store \<Rightarrow> Employee list reply \<times> store" where
  "list_employees skip limit id' employee_id full_name email department s =
     (let query = employees s;
          query = (case id' of None \<Rightarrow> query
                   | Some v \<Rightarrow> filter (\<lambda>r. e_id r = v) query);
          query = (case employee_id of None \<Rightarrow> query
                   | Some v \<Rightarrow> filter (\<lambda>r. e_employee_id r = v) query);
          query = (case full_name of None \<Rightarrow> query
                   | Some v \<Rightarrow> filter (\<lambda>r. ilike (''%'' @ v @ ''%'') (e_full_name r)) query);
          query = (case email of None \<Rightarrow> query
                   | Some v \<Rightarrow> filter (\<lambda>r. e_email r = v) query);
          query = (case department of None \<Rightarrow> query
                   | Some v \<Rightarrow> filter (\<lambda>r. e_department r = Some v) query)
      in if skip < 0 \<or> limit < 0 then (Inl DataError, s)
         else (Inr (HTTP_200_OK,
                    take (nat limit) (drop (nat skip) (order_by_desc e_created_at query))), s))"

subsection \<open>Attendance handlers (lines 296-418)\<close>

text \<open>\<open>create_attendance\<close>, lines 301-334, in the same two halves.\<close>

definition create_attendance_precheck :: "AttendanceCreate \<Rightarrow> store \<Rightarrow> failure option" where
  "create_attendance_precheck attendance_in s =
     (case find (\<lambda>r. e_id r = ac_employee_id attendance_in) (employees s) of
        None \<Rightarrow> Some (HTTPException HTTP_404_NOT_FOUND ''Employee not found'')
      | Some employee \<Rightarrow>
          (case find (\<lambda>a. a_employee_id a = ac_employee_id attendance_in \<and>
                           a_date a = ac_date attendance_in) (attendance s) of
             Some existing \<Rightarrow>
               Some (HTTPException HTTP_400_BAD_REQUEST
                       ''Attendance already recorded for this employee and date'')
           | None \<Rightarrow> None))"

definition create_attendance_commit ::
  "AttendanceCreate \<Rightarrow> store \<Rightarrow> Attendance reply \<times> store" where
  "create_attendance_commit attendance_in s =
     (case insert_attendance attendance_in s of
        (Inl err, s') \<Rightarrow> (Inl err, s')
      | (Inr db_attendance, s') \<Rightarrow> (Inr (HTTP_201_CREATED, db_attendance), s'))"

definition create_attendance ::
  "AttendanceCreate \<Rightarrow> store \<Rightarrow> Attendance reply \<times> store" where
  "create_attendance attendance_in s =
     (case create_attendance_precheck attendance_in s of
        Some err \<Rightarrow> (Inl err, s)
      | None \<Rightarrow> create_attendance_commit attendance_in s)"

text \<open>\<open>list_attendance\<close>, lines 341-356.\<close>

definition list_attendance ::
  "int option \<Rightarrow> date option \<Rightarrow> attendance_status option \<Rightarrow> store \<Rightarrow>
   Attendance list reply \<times> store" where
  "list_attendance employee_id date_value status s =
     (let query = attendance s;
          query = (case employee_id of None \<Rightarrow> query
                   | Some v \<Rightarrow> filter (\<lambda>a. a_employee_id a = v) query);
          query = (case date_value of None \<Rightarrow> query
                   | Some v \<Rightarrow> filter (\<lambda>a. a_date a = v) query);
          query = (case status of None \<Rightarrow> query
                   | Some v \<Rightarrow> filter (\<lambda>a. a_status a = v) query)
      in (Inr (HTTP_200_OK, order_by_desc (\<lambda>a. date_key (a_date a)) query), s))"

text \<open>\<open>update_attendance\<close>, lines 363-379, and \<open>delete_attendance\<close>, lines 386-395.\<close>

definition update_attendance ::
  "int \<Rightarrow> AttendanceUpdate \<Rightarrow> store \<Rightarrow> Attendance reply \<times> store" where
  "update_attendance attendance_id attendance_in s =
     (case find (\<lambda>a. a_id a = attendance_id) (attendance s) of
        None \<Rightarrow> (Inl (HTTPException HTTP_404_NOT_FOUND ''Attendance record not found''), s)
      | Some attendance_row \<Rightarrow>
          (Inr (HTTP_200_OK, attendance_row\<lparr> a_status := au_status attendance_in \<rparr>),
           update_attendance_row (a_id attendance_row) (au_status attendance_in) s))"

definition delete_attendance :: "int \<Rightarrow> store \<Rightarrow> unit reply \<times> store" where
  "delete_attendance attendance_id s =
     (case find (\<lambda>a. a_id a = attendance_id) (attendance s) of
        None \<Rightarrow> (Inl (HTTPException HTTP_404_NOT_FOUND ''Attendance record not found''), s)
      | Some attendance_row \<Rightarrow>
          (Inr (HTTP_204_NO_CONTENT, ()), delete_attendance_row (a_id attendance_row) s))"

text \<open>\<open>list_attendance_for_employee\<close>, lines 402-418.\<close>

definition list_attendance_for_employee ::
  "int \<Rightarrow> store \<Rightarrow> Attendance list reply \<times> store" where
  "list_attendance_for_employee employee_id s =
     (case find (\<lambda>r. e_id r = employee_id) (employees s) of
        None \<Rightarrow> (Inl (HTTPException HTTP_404_NOT_FOUND ''Employee not found''), s)
      | Some employee \<Rightarrow>
          (Inr (HTTP_200_OK,
                order_by_desc (\<lambda>a. date_key (a_date a))
                  (filter (\<lambda>a. a_employee_id a = employee_id) (attendance s))), s))"

subsection \<open>Query parameters of the two list routes\<close>

text \<open>
  FastAPI binds a query parameter to the handler argument of the same name, and ignores
  a parameter no argument is named after. An argument that is absent from the query string
  takes its default. The text of a present one is converted to the declared type, and the
  request is rejected when that fails. The conversions to \<open>int\<close> and to \<open>date\<close> are
  pydantic's and are taken as parameters; \<open>Literal["Present", "Absent"]\<close> accepts the two
  words.
\<close>

type_synonym query_params = "string \<rightharpoonup> string"

definition optional_param ::
  "(string \<Rightarrow> 'a option) \<Rightarrow> query_params \<Rightarrow> string \<Rightarrow> failure + 'a option" where
  "optional_param parse params name =
     (case params name of
        None \<Rightarrow> Inr None
      | Some raw \<Rightarrow> (case parse raw of None \<Rightarrow> Inl RequestValidationError
                                     | Some v \<Rightarrow> Inr (Some v)))"

definition default_param ::
  "(string \<Rightarrow> 'a option) \<Rightarrow> query_params \<Rightarrow> string \<Rightarrow> 'a \<Rightarrow> failure + 'a" where
  "default_param parse params name dflt =
     (case params name of
        None \<Rightarrow> Inr dflt
      | Some raw \<Rightarrow> (case parse raw of None \<Rightarrow> Inl RequestValidationError
                                     | Some v \<Rightarrow> Inr v))"

definition parse_status :: "string \<Rightarrow> attendance_status option" where
  "parse_status raw =
     (if raw = ''Present'' then Some Present
      else if raw = ''Absent'' then Some Absent else None)"

text \<open>\<open>GET /api/attendance\<close>: the arguments of \<open>list_attendance\<close> (lines 342-344).\<close>

definition get_api_attendance ::
  "(string \<Rightarrow> int option) \<Rightarrow> (string \<Rightarrow> date option) \<Rightarrow> query_params \<Rightarrow> store \<Rightarrow>
   Attendance list reply \<times> store" where
  "get_api_attendance parse_int parse_date params s =
     (case optional_param parse_int params ''employee_id'' of
        Inl err \<Rightarrow> (Inl err, s)
      | Inr employee_id \<Rightarrow>
     (case optional_param parse_date params ''date_value'' of
        Inl err \<Rightarrow> (Inl err, s)
      | Inr date_value \<Rightarrow>
     (case optional_param parse_status params ''status'' of
        Inl err \<Rightarrow> (Inl err, s)
      | Inr status \<Rightarrow> list_attendance employee_id date_value status s)))"

text \<open>\<open>GET /api/employees\<close>: the arguments of \<open>list_employees\<close> (lines 248-254).\<close>

definition get_api_employees ::
  "(string \<Rightarrow> int option) \<Rightarrow> query_params \<Rightarrow> store \<Rightarrow> Employee list reply \<times> store" where
  "get_api_employees parse_int params s =
     (case default_param parse_int params ''skip'' 0 of
        Inl err \<Rightarrow> (Inl err, s)
      | Inr skip \<Rightarrow>
     (case default_param parse_int params ''limit'' 100 of
        Inl err \<Rightarrow> (Inl err, s)
      | Inr limit \<Rightarrow>
     (case optional_param parse_int params ''id'' of
        Inl err \<Rightarrow> (Inl err, s)
      | Inr id' \<Rightarrow>
          list_employees skip limit id' (params ''employee_id'') (params ''full_name'')
            (params ''email'') (params ''department'') s)))"

subsection \<open>Properties the claims speak of\<close>

text \<open>
  Referential integrity and the uniqueness of \<open>(employee_id, date)\<close>, as the schema
  declares them for the attendance table.
\<close>

definition references_employees :: "store \<Rightarrow> bool" where
  "references_employees s \<longleftrightarrow>
     (\<forall>a \<in> set (attendance s). \<exists>r \<in> set (employees s). e_id r = a_employee_id a)"

definition uq_employee_date :: "Attendance list \<Rightarrow> bool" where
  "uq_employee_date rows \<longleftrightarrow> distinct (map (\<lambda>a. (a_employee_id a, a_date a)) rows)"

text \<open>A list is in descending order of a key.\<close>

definition descending :: "('a \<Rightarrow> 'k::linorder) \<Rightarrow> 'a list \<Rightarrow> bool" where
  "descending f rows \<longleftrightarrow> sorted_wrt (\<lambda>x y. f y \<le> f x) rows"

text \<open>An attendance row passes every filter that is supplied.\<close>

definition attendance_matches ::
  "int option \<Rightarrow> date option \<Rightarrow> attendance_status option \<Rightarrow> Attendance \<Rightarrow> bool" where
  "attendance_matches employee_id date_value status a \<longleftrightarrow>
     (case employee_id of None \<Rightarrow> True | Some v \<Rightarrow> a_employee_id a = v) \<and>
     (case date_value of None \<Rightarrow> True | Some v \<Rightarrow> a_date a = v) \<and>
     (case status of None \<Rightarrow> True | Some v \<Rightarrow> a_status a = v)"

text \<open>
  \<open>substring_of n v\<close>: the text \<open>n\<close> occurs in \<open>v\<close>. An employee row passes every filter
  that is supplied, the name filter read as a substring test on the lower-cased texts.
\<close>

fun prefix_of :: "string \<Rightarrow> string \<Rightarrow> bool" where
  "prefix_of [] v = True"
| "prefix_of (x # xs) [] = False"
| "prefix_of (x # xs) (c # cs) = (x = c \<and> prefix_of xs cs)"

fun substring_of :: "string \<Rightarrow> string \<Rightarrow> bool" where
  "substring_of n [] = (n = [])"
| "substring_of n (c # cs) = (prefix_of n (c # cs) \<or> substring_of n cs)"

definition employee_matches ::
  "int option \<Rightarrow> string option \<Rightarrow> string option \<Rightarrow> string option \<Rightarrow> string option \<Rightarrow>
   Employee \<Rightarrow> bool" where
  "employee_matches id' employee_id full_name email department r \<longleftrightarrow>
     (case id' of None \<Rightarrow> True | Some v \<Rightarrow> e_id r = v) \<and>
     (case employee_id of None \<Rightarrow> True | Some v \<Rightarrow> e_employee_id r = v) \<and>
     (case full_name of None \<Rightarrow> True
      | Some v \<Rightarrow> substring_of (lower v) (lower (e_full_name r))) \<and>
     (case email of None \<Rightarrow> True | Some v \<Rightarrow> e_email r = v) \<and>
     (case department of None \<Rightarrow> True | Some v \<Rightarrow> e_department r = Some v)"

text \<open>
  A text without the characters \<open>LIKE\<close> gives a meaning of their own: the two wildcards,
  and the backslash, which PostgreSQL and MySQL read as the escape character.
\<close>

definition wildcard_free :: "string \<Rightarrow> bool" where
  "wildcard_free v \<longleftrightarrow>
     CHR ''%'' \<notin> set v \<and> CHR ''_'' \<notin> set v \<and> CHR 0x5C \<notin> set v"

text \<open>The bounds \<open>EmployeeBase\<close> puts on \<open>full_name\<close> (line 99), read on a stored row.\<close>

definition full_name_ok :: "Employee \<Rightarrow> bool" where
  "full_name_ok r \<longleftrightarrow> 1 \<le> length (e_full_name r) \<and> length (e_full_name r) \<le> 255"

text \<open>
  The requests that write, and the store each leaves behind; \<open>serve_all\<close> serves a
  sequence of them one after the other, starting from the empty database that
  \<open>create_all\<close> sets up (line 161).
\<close>

datatype request =
  CreateEmployee int EmployeeCreate
  | UpdateEmployee int EmployeeUpdate
  | DeleteEmployee int
  | CreateAttendance AttendanceCreate
  | UpdateAttendance int AttendanceUpdate
  | DeleteAttendance int

fun serve :: "request \<Rightarrow> store \<Rightarrow> store" where
  "serve (CreateEmployee now b) s = snd (create_employee now b s)"
| "serve (UpdateEmployee i b) s = snd (update_employee i b s)"
| "serve (DeleteEmployee i) s = snd (delete_employee i s)"
| "serve (CreateAttendance b) s = snd (create_attendance b s)"
| "serve (UpdateAttendance i b) s = snd (update_attendance i b s)"
| "serve (DeleteAttendance i) s = snd (delete_attendance i s)"

definition serve_all :: "request list \<Rightarrow> store \<Rightarrow> store" where
  "serve_all rs s = foldl (\<lambda>s r. serve r s) s rs"

definition empty_store :: store where
  "empty_store = \<lparr> employees = [], attendance = [],
                   employees_id_seq = 1, attendance_id_seq = 1 \<rparr>"

definition store_ok :: "store \<Rightarrow> bool" where
  "store_ok s \<longleftrightarrow> references_employees s \<and> uq_employee_date (attendance s)"

text \<open>Each sequence is ahead of the ids its table holds.\<close>

definition ids_below_seq :: "store \<Rightarrow> bool" where
  "ids_below_seq s \<longleftrightarrow>
     (\<forall>r \<in> set (employees s). e_id r < employees_id_seq s) \<and>
     (\<forall>a \<in> set (attendance s). a_id a < attendance_id_seq s)"

subsection \<open>A small database\<close>

text \<open>
  Two employees and three attendance rows, after the end-to-end scenarios of the
  specification: Ann is employee \<open>E1\<close> and was present on 1 January 2024.
\<close>

definition ann :: Employee where
  "ann = \<lparr> e_id = 1, e_employee_id = ''E1'', e_full_name = ''Ann'',
           e_email = ''ann@x.com'', e_department = Some ''Eng'', e_created_at = 10 \<rparr>"

definition bob :: Employee where
  "bob = \<lparr> e_id = 2, e_employee_id = ''E2'', e_full_name = ''Bob'',
           e_email = ''bob@x.com'', e_department = None, e_created_at = 20 \<rparr>"

definition ann_jan1 :: Attendance where
  "ann_jan1 = \<lparr> a_id = 1, a_employee_id = 1, a_date = Date 2024 1 1, a_status = Present \<rparr>"

definition ann_jan2 :: Attendance where
  "ann_jan2 = \<lparr> a_id = 2, a_employee_id = 1, a_date = Date 2024 1 2, a_status = Absent \<rparr>"

definition bob_jan1 :: Attendance where
  "bob_jan1 = \<lparr> a_id = 3, a_employee_id = 2, a_date = Date 2024 1 1, a_status = Present \<rparr>"

definition hr :: store where
  "hr = \<lparr> employees = [ann, bob], attendance = [ann_jan1, ann_jan2, bob_jan1],
          employees_id_seq = 3, attendance_id_seq = 4 \<rparr>"

text \<open>
  Two requests to create an employee, with different ids and the same email; and two to
  record Ann's attendance on 3 January 2024.
\<close>

definition ann_jan3_present :: AttendanceCreate where
  "ann_jan3_present = \<lparr> ac_employee_id = 1, ac_date = Date 2024 1 3, ac_status = Present \<rparr>"

definition ann_jan3_absent :: AttendanceCreate where
  "ann_jan3_absent = \<lparr> ac_employee_id = 1, ac_date = Date 2024 1 3, ac_status = Absent \<rparr>"

definition cy :: EmployeeCreate where
  "cy = \<lparr> ec_employee_id = ''E3'', ec_full_name = ''Cy'',
          ec_email = ''cy@x.com'', ec_department = None \<rparr>"

definition cyd :: EmployeeCreate where
  "cyd = \<lparr> ec_employee_id = ''E4'', ec_full_name = ''Cyd'',
           ec_email = ''cy@x.com'', ec_department = Some ''Ops'' \<rparr>"

text \<open>
  Conversions for the query strings sent to the small database: the texts \<open>1\<close>, \<open>2\<close>,
  \<open>2024-01-01\<close> and \<open>2024-01-02\<close>, read as pydantic reads them.
\<close>

definition int_of_text :: "string \<Rightarrow> int option" where
  "int_of_text raw = (if raw = ''1'' then Some 1 else if raw = ''2'' then Some 2 else None)"

definition date_of_text :: "string \<Rightarrow> date option" where
  "date_of_text raw =
     (if raw = ''2024-01-01'' then Some (Date 2024 1 1)
      else if raw = ''2024-01-02'' then Some (Date 2024 1 2) else None)"

section \<open>Theorems\<close>

lemmas status_defs =
  HTTP_200_OK_def HTTP_201_CREATED_def HTTP_204_NO_CONTENT_def
  HTTP_400_BAD_REQUEST_def HTTP_404_NOT_FOUND_def

lemmas hr_defs = hr_def ann_def bob_def ann_jan1_def ann_jan2_def bob_jan1_def

lemma find_None_set: "find P xs = None \<longleftrightarrow> (\<forall>x \<in> set xs. \<not> P x)"
  by (induction xs) auto

lemma find_Some_set: "find P xs = Some x \<Longrightarrow> x \<in> set xs \<and> P x"
  by (induction xs) (auto split: if_splits)

subsection \<open>Creating an employee whose id or email is taken\<close>

text \<open>
  C1. Whatever the store holds, a Create Employee request whose \<open>employee_id\<close> or
  \<open>email\<close> equals that of a stored employee is refused with HTTP 400 (the duplicate-key
  error; the detail names the id when the id is taken, and the email otherwise), and the
  store the handler leaves behind is the store it was given: no employee and no
  attendance record is added, changed or removed.
\<close>

theorem create_employee_duplicate:
  assumes "r \<in> set (employees s)"
    and "e_employee_id r = ec_employee_id employee_in \<or> e_email r = ec_email employee_in"
  shows "create_employee now employee_in s =
           (Inl (HTTPException 400
                  (if \<exists>x \<in> set (employees s). e_employee_id x = ec_employee_id employee_in
                   then ''Employee ID already exists'' else ''Email is already in use'')), s)"
proof (cases "find (\<lambda>x. e_employee_id x = ec_employee_id employee_in) (employees s)")
  case None
  then have no_id: "\<forall>x \<in> set (employees s). e_employee_id x \<noteq> ec_employee_id employee_in"
    by (simp add: find_None_set)
  with assms have "e_email r = ec_email employee_in" by blast
  with assms(1) have "find (\<lambda>x. e_email x = ec_email employee_in) (employees s) \<noteq> None"
    by (auto simp: find_None_set)
  then obtain y where "find (\<lambda>x. e_email x = ec_email employee_in) (employees s) = Some y"
    by blast
  with None no_id show ?thesis
    by (simp add: create_employee_def create_employee_precheck_def status_defs)
next
  case (Some y)
  then have "\<exists>x \<in> set (employees s). e_employee_id x = ec_employee_id employee_in"
    using find_Some_set by fastforce
  with Some show ?thesis
    by (simp add: create_employee_def create_employee_precheck_def status_defs)
qed

text \<open>A new id with Bob's email, sent to the small database.\<close>

theorem create_employee_duplicate_witness:
  "bob \<in> set (employees hr) \<and>
   (e_employee_id bob = ec_employee_id \<lparr> ec_employee_id = ''E9'', ec_full_name = ''Rob'',
        ec_email = ''bob@x.com'', ec_department = None \<rparr> \<or>
    e_email bob = ec_email \<lparr> ec_employee_id = ''E9'', ec_full_name = ''Rob'',
        ec_email = ''bob@x.com'', ec_department = None \<rparr>) \<and>
   create_employee 30 \<lparr> ec_employee_id = ''E9'', ec_full_name = ''Rob'',
        ec_email = ''bob@x.com'', ec_department = None \<rparr> hr =
     (Inl (HTTPException 400 ''Email is already in use''), hr)"
  using create_employee_duplicate [of bob hr
      "\<lparr> ec_employee_id = ''E9'', ec_full_name = ''Rob'',
         ec_email = ''bob@x.com'', ec_department = None \<rparr>" 30]
  by (simp add: hr_defs)

subsection \<open>Attendance for an employee that does not exist\<close>

text \<open>
  C3. Whatever the store holds, a Create Attendance request whose \<open>employee_id\<close> is the
  id of no stored employee is refused with HTTP 404, \<open>Employee not found\<close>, and the store
  is left as it was.
\<close>

theorem create_attendance_unknown_employee:
  assumes "\<forall>r \<in> set (employees s). e_id r \<noteq> ac_employee_id attendance_in"
  shows "create_attendance attendance_in s =
           (Inl (HTTPException 404 ''Employee not found''), s)"
proof -
  from assms have "find (\<lambda>r. e_id r = ac_employee_id attendance_in) (employees s) = None"
    by (simp add: find_None_set)
  then show ?thesis
    by (simp add: create_attendance_def create_attendance_precheck_def status_defs)
qed

theorem create_attendance_unknown_employee_witness:
  "ac_employee_id \<lparr> ac_employee_id = 7, ac_date = Date 2024 1 3, ac_status = Present \<rparr>
     \<notin> set (map e_id (employees hr)) \<and>
   create_attendance \<lparr> ac_employee_id = 7, ac_date = Date 2024 1 3, ac_status = Present \<rparr> hr =
     (Inl (HTTPException 404 ''Employee not found''), hr)"
  using create_attendance_unknown_employee
    [of hr "\<lparr> ac_employee_id = 7, ac_date = Date 2024 1 3, ac_status = Present \<rparr>"]
  by (simp add: hr_defs)

subsection \<open>Deleting an employee\<close>

text \<open>
  C4. When an employee with id \<open>i\<close> is stored, \<open>delete_employee i\<close> answers 204 with no
  content and leaves a store in which the employee rows with that id and the attendance
  rows that reference it are gone, and every other employee row and attendance row stands
  as it was, in the same order. In that store the employee query for \<open>i\<close> finds nothing,
  and List Attendance For Employee, Update Employee and Delete Employee on \<open>i\<close> each
  answer 404, \<open>Employee not found\<close>.
\<close>

theorem delete_employee_cascade:
  assumes "r \<in> set (employees s)" and "e_id r = i"
  shows "\<exists>s'. delete_employee i s = (Inr (204, ()), s') \<and>
           employees s' = filter (\<lambda>x. e_id x \<noteq> i) (employees s) \<and>
           attendance s' = filter (\<lambda>a. a_employee_id a \<noteq> i) (attendance s) \<and>
           find (\<lambda>x. e_id x = i) (employees s') = None \<and>
           list_attendance_for_employee i s' =
             (Inl (HTTPException 404 ''Employee not found''), s') \<and>
           update_employee i employee_in s' =
             (Inl (HTTPException 404 ''Employee not found''), s') \<and>
           delete_employee i s' = (Inl (HTTPException 404 ''Employee not found''), s')"
proof -
  from assms have "find (\<lambda>x. e_id x = i) (employees s) \<noteq> None"
    by (auto simp: find_None_set)
  then obtain y where y: "find (\<lambda>x. e_id x = i) (employees s) = Some y" by blast
  then have yi: "e_id y = i" using find_Some_set by fastforce
  define s' where "s' = delete_employee_row i s"
  have del: "delete_employee i s = (Inr (204, ()), s')"
    using y yi by (simp add: delete_employee_def s'_def status_defs)
  have emps: "employees s' = filter (\<lambda>x. e_id x \<noteq> i) (employees s)"
    and atts: "attendance s' = filter (\<lambda>a. a_employee_id a \<noteq> i) (attendance s)"
    by (simp_all add: s'_def delete_employee_row_def)
  have gone: "find (\<lambda>x. e_id x = i) (employees s') = None"
    by (simp add: emps find_None_set)
  from gone have "list_attendance_for_employee i s' =
             (Inl (HTTPException 404 ''Employee not found''), s')"
    and "update_employee i employee_in s' =
             (Inl (HTTPException 404 ''Employee not found''), s')"
    and "delete_employee i s' = (Inl (HTTPException 404 ''Employee not found''), s')"
    by (simp_all add: list_attendance_for_employee_def update_employee_def
        update_employee_precheck_def delete_employee_def status_defs)
  with del emps atts gone show ?thesis by blast
qed

text \<open>Deleting Ann from the small database leaves Bob and his one attendance row.\<close>

theorem delete_employee_cascade_witness:
  "ann \<in> set (employees hr) \<and> e_id ann = 1 \<and>
   delete_employee 1 hr =
     (Inr (204, ()), hr\<lparr> employees := [bob], attendance := [bob_jan1] \<rparr>) \<and>
   list_attendance_for_employee 1 (snd (delete_employee 1 hr)) =
     (Inl (HTTPException 404 ''Employee not found''), snd (delete_employee 1 hr))"
  using delete_employee_cascade [of ann hr 1]
  by (simp add: hr_defs delete_employee_def delete_employee_row_def
      list_attendance_for_employee_def status_defs)

subsection \<open>Updating with a null department\<close>

lemma assign_fields_department:
  "eu_department employee_in = None \<Longrightarrow>
   e_department (assign_fields employee_in r) = e_department r"
  by (simp add: assign_fields_def)

lemma update_employee_row_department:
  assumes "eu_department employee_in = None"
    and "update_employee_row employee employee_in s = Inr s'"
  shows "map e_department (employees s') = map e_department (employees s)"
  using assms
  by (auto simp: update_employee_row_def assign_fields_department split: if_splits)

text \<open>
  C10. An Update Employee payload whose \<open>department\<close> is null (\<open>None\<close>, which is also what
  an omitted field is) leaves the department of every stored employee as it was, whatever
  else the payload holds and whether or not the update succeeds; in particular a department
  that holds a value is not reset to null. A successful reply carries the department the
  employee had before.
\<close>

theorem update_employee_null_department:
  assumes "eu_department employee_in = None"
  shows "map e_department (employees (snd (update_employee employee_id employee_in s)))
           = map e_department (employees s) \<and>
         (case fst (update_employee employee_id employee_in s) of
            Inl err \<Rightarrow> True
          | Inr (code, row) \<Rightarrow>
              Some (e_department row) =
                map_option e_department (find (\<lambda>r. e_id r = employee_id) (employees s)))"
proof (cases "update_employee_precheck employee_id employee_in s")
  case (Inl err)
  then show ?thesis by (simp add: update_employee_def)
next
  case (Inr employee)
  then have found: "find (\<lambda>r. e_id r = employee_id) (employees s) = Some employee"
    by (auto simp: update_employee_precheck_def split: option.splits if_splits)
  show ?thesis
  proof (cases "update_employee_row employee employee_in s")
    case (Inl err)
    with Inr show ?thesis by (simp add: update_employee_def update_employee_commit_def)
  next
    case row: (Inr s')
    from assms row have "map e_department (employees s') = map e_department (employees s)"
      by (rule update_employee_row_department)
    with Inr row found assms show ?thesis
      by (simp add: update_employee_def update_employee_commit_def assign_fields_department)
  qed
qed

theorem update_employee_null_department_witness:
  "eu_department \<lparr> eu_full_name = Some ''Ann B'', eu_email = None, eu_department = None \<rparr> = None \<and>
   map e_department (employees hr) = [Some ''Eng'', None] \<and>
   map e_department (employees (snd (update_employee 1
       \<lparr> eu_full_name = Some ''Ann B'', eu_email = None, eu_department = None \<rparr> hr)))
     = [Some ''Eng'', None] \<and>
   fst (update_employee 1
       \<lparr> eu_full_name = Some ''Ann B'', eu_email = None, eu_department = None \<rparr> hr)
     = Inr (200, ann\<lparr> e_full_name := ''Ann B'' \<rparr>)"
  using update_employee_null_department
    [of "\<lparr> eu_full_name = Some ''Ann B'', eu_email = None, eu_department = None \<rparr>" 1 hr]
  by (simp add: hr_defs update_employee_def update_employee_precheck_def
      update_employee_commit_def update_employee_row_def email_violation_def
      assign_fields_def truthy_def status_defs)

subsection \<open>A second attendance record for an employee and a day\<close>

lemma insert_attendance_unique:
  assumes "uq_employee_date (attendance s)" and "insert_attendance b s = (res, s')"
  shows "uq_employee_date (attendance s')"
proof (cases "(\<exists>a \<in> set (attendance s). a_id a = attendance_id_seq s) \<or>
              attendance_violation s (ac_employee_id b) (ac_date b)")
  case True
  with assms(2) have "attendance s' = attendance s"
    by (auto simp: insert_attendance_def Let_def)
  with assms(1) show ?thesis by simp
next
  case False
  then have fresh: "(ac_employee_id b, ac_date b)
       \<notin> set (map (\<lambda>a. (a_employee_id a, a_date a)) (attendance s))"
    by (auto simp: attendance_violation_def)
  from assms(2) False have "map (\<lambda>a. (a_employee_id a, a_date a)) (attendance s')
      = map (\<lambda>a. (a_employee_id a, a_date a)) (attendance s) @ [(ac_employee_id b, ac_date b)]"
    by (auto simp: insert_attendance_def Let_def)
  with assms(1) fresh show ?thesis
    by (simp add: uq_employee_date_def)
qed

text \<open>
  C2. In a store whose attendance rows reference stored employees and hold each pair of
  employee and date once (what the foreign key and \<open>uq_employee_date\<close> declare), a Create
  Attendance request whose \<open>(employee_id, date)\<close> is the pair of a stored row is refused
  with HTTP 400 (the duplicate-key error) and the store is left as it was; and whatever the
  request, the attendance table that \<open>create_attendance\<close> leaves behind still holds each
  pair of employee and date at most once.
\<close>

theorem create_attendance_duplicate:
  assumes "references_employees s" and "uq_employee_date (attendance s)"
  shows "((\<exists>a \<in> set (attendance s).
             a_employee_id a = ac_employee_id attendance_in \<and> a_date a = ac_date attendance_in)
          \<longrightarrow> create_attendance attendance_in s =
                (Inl (HTTPException 400
                       ''Attendance already recorded for this employee and date''), s)) \<and>
         uq_employee_date (attendance (snd (create_attendance attendance_in s)))"
proof (intro conjI impI)
  assume "\<exists>a \<in> set (attendance s).
             a_employee_id a = ac_employee_id attendance_in \<and> a_date a = ac_date attendance_in"
  then obtain a where a: "a \<in> set (attendance s)"
      "a_employee_id a = ac_employee_id attendance_in" "a_date a = ac_date attendance_in"
    by blast
  with assms(1) obtain r where "r \<in> set (employees s)" "e_id r = ac_employee_id attendance_in"
    by (auto simp: references_employees_def)
  then have "find (\<lambda>r. e_id r = ac_employee_id attendance_in) (employees s) \<noteq> None"
    by (auto simp: find_None_set)
  moreover from a have "find (\<lambda>a. a_employee_id a = ac_employee_id attendance_in \<and>
                           a_date a = ac_date attendance_in) (attendance s) \<noteq> None"
    by (auto simp: find_None_set)
  ultimately show "create_attendance attendance_in s =
                (Inl (HTTPException 400
                       ''Attendance already recorded for this employee and date''), s)"
    by (auto simp: create_attendance_def create_attendance_precheck_def status_defs)
next
  show "uq_employee_date (attendance (snd (create_attendance attendance_in s)))"
  proof (cases "create_attendance_precheck attendance_in s")
    case (Some err)
    with assms(2) show ?thesis by (simp add: create_attendance_def)
  next
    case None
    obtain res s' where ins: "insert_attendance attendance_in s = (res, s')"
      by (cases "insert_attendance attendance_in s")
    with assms(2) have "uq_employee_date (attendance s')"
      by (rule insert_attendance_unique)
    with None ins show ?thesis
      by (cases res) (simp_all add: create_attendance_def create_attendance_commit_def)
  qed
qed

text \<open>A second record for Ann on 1 January 2024.\<close>

theorem create_attendance_duplicate_witness:
  "references_employees hr \<and> uq_employee_date (attendance hr) \<and>
   ann_jan1 \<in> set (attendance hr) \<and>
   a_employee_id ann_jan1 = 1 \<and> a_date ann_jan1 = Date 2024 1 1 \<and>
   create_attendance \<lparr> ac_employee_id = 1, ac_date = Date 2024 1 1, ac_status = Absent \<rparr> hr =
     (Inl (HTTPException 400 ''Attendance already recorded for this employee and date''), hr)"
proof -
  have h1: "references_employees hr" by (simp add: references_employees_def hr_defs)
  have h2: "uq_employee_date (attendance hr)" by (simp add: uq_employee_date_def hr_defs)
  have h3: "\<exists>a \<in> set (attendance hr).
      a_employee_id a = ac_employee_id \<lparr> ac_employee_id = 1, ac_date = Date 2024 1 1, ac_status = Absent \<rparr> \<and>
      a_date a = ac_date \<lparr> ac_employee_id = 1, ac_date = Date 2024 1 1, ac_status = Absent \<rparr>"
    by (simp add: hr_defs)
  from create_attendance_duplicate [OF h1 h2,
      of "\<lparr> ac_employee_id = 1, ac_date = Date 2024 1 1, ac_status = Absent \<rparr>"] h3
  have "create_attendance \<lparr> ac_employee_id = 1, ac_date = Date 2024 1 1, ac_status = Absent \<rparr> hr =
     (Inl (HTTPException 400 ''Attendance already recorded for this employee and date''), hr)"
    by blast
  with h1 h2 show ?thesis by (simp add: hr_defs)
qed

subsection \<open>Updating one field of an employee\<close>

lemma update_employee_found:
  assumes "find (\<lambda>x. e_id x = i) (employees s) = Some r"
    and "update_employee_precheck i employee_in s = Inr r"
    and "\<not> email_violation (employees s) r (assign_fields employee_in r)"
  shows "update_employee i employee_in s =
           (Inr (200, assign_fields employee_in r),
            s\<lparr> employees := map (\<lambda>x. if e_id x = i then assign_fields employee_in x else x)
                                (employees s) \<rparr>)"
proof -
  from assms(1) have "e_id r = i" using find_Some_set by fastforce
  with assms(2,3) show ?thesis
    by (simp add: update_employee_def update_employee_commit_def update_employee_row_def
        status_defs)
qed

text \<open>
  C5, as the code has it. Let \<open>r\<close> be the stored employee that the query for id \<open>i\<close>
  finds. A payload that supplies only \<open>full_name\<close>, or only \<open>department\<close>, is answered
  200 with \<open>r\<close> changed in exactly that field, and the store afterwards differs from the
  store before only in that field of the rows with id \<open>i\<close>: \<open>id\<close>, \<open>employee_id\<close>,
  \<open>created_at\<close> and the two omitted fields keep their values, and so do all other rows. A
  payload that supplies only \<open>email\<close> does the same for the email when the supplied
  address is the employee's own or is held by no stored employee. When the supplied address
  differs from the employee's own and a stored employee holds it, the update is refused
  with HTTP 400, \<open>Email is already in use\<close>, and nothing changes.
\<close>

theorem update_employee_single_field:
  assumes "find (\<lambda>x. e_id x = i) (employees s) = Some r"
  shows "update_employee i \<lparr> eu_full_name = Some v, eu_email = None, eu_department = None \<rparr> s =
           (Inr (200, r\<lparr> e_full_name := v \<rparr>),
            s\<lparr> employees := map (\<lambda>x. if e_id x = i then x\<lparr> e_full_name := v \<rparr> else x)
                                (employees s) \<rparr>) \<and>
         update_employee i \<lparr> eu_full_name = None, eu_email = None, eu_department = Some v \<rparr> s =
           (Inr (200, r\<lparr> e_department := Some v \<rparr>),
            s\<lparr> employees := map (\<lambda>x. if e_id x = i then x\<lparr> e_department := Some v \<rparr> else x)
                                (employees s) \<rparr>) \<and>
         (v = e_email r \<or> (\<forall>x \<in> set (employees s). e_email x \<noteq> v) \<longrightarrow>
          update_employee i \<lparr> eu_full_name = None, eu_email = Some v, eu_department = None \<rparr> s =
           (Inr (200, r\<lparr> e_email := v \<rparr>),
            s\<lparr> employees := map (\<lambda>x. if e_id x = i then x\<lparr> e_email := v \<rparr> else x)
                                (employees s) \<rparr>)) \<and>
         (v \<noteq> [] \<and> v \<noteq> e_email r \<and> (\<exists>x \<in> set (employees s). e_email x = v) \<longrightarrow>
          update_employee i \<lparr> eu_full_name = None, eu_email = Some v, eu_department = None \<rparr> s =
           (Inl (HTTPException 400 ''Email is already in use''), s))"
proof (intro conjI impI)
  let ?u = "\<lparr> eu_full_name = Some v, eu_email = None, eu_department = None \<rparr>"
  have "update_employee_precheck i ?u s = Inr r"
    using assms by (simp add: update_employee_precheck_def truthy_def)
  moreover have "\<not> email_violation (employees s) r (assign_fields ?u r)"
    by (simp add: email_violation_def assign_fields_def)
  ultimately have "update_employee i ?u s =
           (Inr (200, assign_fields ?u r),
            s\<lparr> employees := map (\<lambda>x. if e_id x = i then assign_fields ?u x else x)
                                (employees s) \<rparr>)"
    using assms by (rule update_employee_found [rotated])
  then show "update_employee i ?u s =
           (Inr (200, r\<lparr> e_full_name := v \<rparr>),
            s\<lparr> employees := map (\<lambda>x. if e_id x = i then x\<lparr> e_full_name := v \<rparr> else x)
                                (employees s) \<rparr>)"
    by (simp add: assign_fields_def)
next
  let ?u = "\<lparr> eu_full_name = None, eu_email = None, eu_department = Some v \<rparr>"
  have "update_employee_precheck i ?u s = Inr r"
    using assms by (simp add: update_employee_precheck_def truthy_def)
  moreover have "\<not> email_violation (employees s) r (assign_fields ?u r)"
    by (simp add: email_violation_def assign_fields_def)
  ultimately have "update_employee i ?u s =
           (Inr (200, assign_fields ?u r),
            s\<lparr> employees := map (\<lambda>x. if e_id x = i then assign_fields ?u x else x)
                                (employees s) \<rparr>)"
    using assms by (rule update_employee_found [rotated])
  then show "update_employee i ?u s =
           (Inr (200, r\<lparr> e_department := Some v \<rparr>),
            s\<lparr> employees := map (\<lambda>x. if e_id x = i then x\<lparr> e_department := Some v \<rparr> else x)
                                (employees s) \<rparr>)"
    by (simp add: assign_fields_def)
next
  let ?u = "\<lparr> eu_full_name = None, eu_email = Some v, eu_department = None \<rparr>"
  assume free: "v = e_email r \<or> (\<forall>x \<in> set (employees s). e_email x \<noteq> v)"
  then have "find (\<lambda>x. Some (e_email x) = Some v) (employees s) = None \<or> v = e_email r"
    by (auto simp: find_None_set)
  then have "update_employee_precheck i ?u s = Inr r"
    using assms by (auto simp: update_employee_precheck_def truthy_def)
  moreover from free have "\<not> email_violation (employees s) r (assign_fields ?u r)"
    by (auto simp: email_violation_def assign_fields_def)
  ultimately have "update_employee i ?u s =
           (Inr (200, assign_fields ?u r),
            s\<lparr> employees := map (\<lambda>x. if e_id x = i then assign_fields ?u x else x)
                                (employees s) \<rparr>)"
    using assms by (rule update_employee_found [rotated])
  then show "update_employee i ?u s =
           (Inr (200, r\<lparr> e_email := v \<rparr>),
            s\<lparr> employees := map (\<lambda>x. if e_id x = i then x\<lparr> e_email := v \<rparr> else x)
                                (employees s) \<rparr>)"
    by (simp add: assign_fields_def)
next
  let ?u = "\<lparr> eu_full_name = None, eu_email = Some v, eu_department = None \<rparr>"
  assume taken: "v \<noteq> [] \<and> v \<noteq> e_email r \<and> (\<exists>x \<in> set (employees s). e_email x = v)"
  then have "find (\<lambda>x. Some (e_email x) = Some v) (employees s) \<noteq> None"
    by (auto simp: find_None_set)
  then obtain y where "find (\<lambda>x. Some (e_email x) = Some v) (employees s) = Some y"
    by blast
  with taken assms show "update_employee i ?u s =
           (Inl (HTTPException 400 ''Email is already in use''), s)"
    by (simp add: update_employee_def update_employee_precheck_def truthy_def status_defs)
qed

text \<open>Ann moves to a department, then to an address nobody holds, then asks for Bob's.\<close>

theorem update_employee_single_field_witness:
  "find (\<lambda>x. e_id x = 1) (employees hr) = Some ann \<and>
   update_employee 1 \<lparr> eu_full_name = None, eu_email = None, eu_department = Some ''Ops'' \<rparr> hr =
     (Inr (200, ann\<lparr> e_department := Some ''Ops'' \<rparr>),
      hr\<lparr> employees := [ann\<lparr> e_department := Some ''Ops'' \<rparr>, bob] \<rparr>) \<and>
   update_employee 1 \<lparr> eu_full_name = None, eu_email = Some ''ann@y.org'', eu_department = None \<rparr> hr =
     (Inr (200, ann\<lparr> e_email := ''ann@y.org'' \<rparr>),
      hr\<lparr> employees := [ann\<lparr> e_email := ''ann@y.org'' \<rparr>, bob] \<rparr>) \<and>
   bob \<in> set (employees hr) \<and> e_email bob = ''bob@x.com'' \<and> e_email ann = ''ann@x.com'' \<and>
   update_employee 1 \<lparr> eu_full_name = None, eu_email = Some ''bob@x.com'', eu_department = None \<rparr> hr =
     (Inl (HTTPException 400 ''Email is already in use''), hr)"
proof -
  have found: "find (\<lambda>x. e_id x = 1) (employees hr) = Some ann" by (simp add: hr_defs)
  have free: "''ann@y.org'' = e_email ann \<or> (\<forall>x \<in> set (employees hr). e_email x \<noteq> ''ann@y.org'')"
    by (simp add: hr_defs)
  from update_employee_single_field [OF found, of "''Ops''"]
  have dept: "update_employee 1 \<lparr> eu_full_name = None, eu_email = None, eu_department = Some ''Ops'' \<rparr> hr =
     (Inr (200, ann\<lparr> e_department := Some ''Ops'' \<rparr>),
      hr\<lparr> employees := [ann\<lparr> e_department := Some ''Ops'' \<rparr>, bob] \<rparr>)"
    by (simp add: hr_defs)
  from update_employee_single_field [OF found, of "''ann@y.org''"] free
  have "update_employee 1 \<lparr> eu_full_name = None, eu_email = Some ''ann@y.org'', eu_department = None \<rparr> hr =
     (Inr (200, ann\<lparr> e_email := ''ann@y.org'' \<rparr>),
      hr\<lparr> employees := [ann\<lparr> e_email := ''ann@y.org'' \<rparr>, bob] \<rparr>)"
    by (simp add: hr_defs)
  note mail = this
  have taken: "''bob@x.com'' \<noteq> [] \<and> ''bob@x.com'' \<noteq> e_email ann \<and>
      (\<exists>x \<in> set (employees hr). e_email x = ''bob@x.com'')"
    by (simp add: hr_defs)
  from update_employee_single_field [OF found, of "''bob@x.com''"] taken
  have "update_employee 1 \<lparr> eu_full_name = None, eu_email = Some ''bob@x.com'', eu_department = None \<rparr> hr =
     (Inl (HTTPException 400 ''Email is already in use''), hr)"
    by blast
  with found dept mail show ?thesis by (simp add: hr_defs)
qed

text \<open>
  The claim as the specification words it, every payload with one field changes that
  field, fails when the one field is an email another employee holds: Ann asks for Bob's
  address, is answered 400, and keeps her own.
\<close>

theorem update_employee_single_field_counterexample:
  "find (\<lambda>x. e_id x = 1) (employees hr) = Some ann \<and>
   e_email ann \<noteq> ''bob@x.com'' \<and>
   update_employee 1 \<lparr> eu_full_name = None, eu_email = Some ''bob@x.com'', eu_department = None \<rparr> hr =
     (Inl (HTTPException 400 ''Email is already in use''), hr)"
  by (simp add: hr_defs update_employee_def update_employee_precheck_def truthy_def status_defs)

subsection \<open>The length of a stored full name\<close>

text \<open>
  Create Employee keeps every stored \<open>full_name\<close> within 1 to 255 characters: the body is
  an \<open>EmployeeCreate\<close>, whose \<open>full_name\<close> has \<open>min_length=1\<close> and \<open>max_length=255\<close>.
\<close>

lemma create_employee_full_name:
  assumes "EmployeeCreate_valid emailstr employee_in"
    and "list_all full_name_ok (employees s)"
  shows "list_all full_name_ok (employees (snd (create_employee now employee_in s)))"
  using assms
  by (auto simp: create_employee_def create_employee_commit_def insert_employee_def
      EmployeeCreate_valid_def full_name_ok_def Let_def split: option.splits if_splits)


text \<open>
  C7 fails on Update Employee. \<open>EmployeeUpdate.full_name\<close> has \<open>max_length=255\<close> and no
  \<open>min_length\<close> (line 134), so the empty string is a valid payload; it is not \<open>None\<close>, so
  line 232 assigns it. On the small database, whose names are all within bounds, the
  update of Ann with the empty name is answered 200 and leaves a stored employee whose
  \<open>full_name\<close> has length 0.
\<close>

theorem update_employee_empty_full_name:
  "EmployeeUpdate_valid emailstr \<lparr> eu_full_name = Some [], eu_email = None, eu_department = None \<rparr> \<and>
   list_all full_name_ok (employees hr) \<and>
   update_employee 1 \<lparr> eu_full_name = Some [], eu_email = None, eu_department = None \<rparr> hr =
     (Inr (200, ann\<lparr> e_full_name := [] \<rparr>),
      hr\<lparr> employees := [ann\<lparr> e_full_name := [] \<rparr>, bob] \<rparr>) \<and>
   \<not> list_all full_name_ok (employees (snd (update_employee 1
        \<lparr> eu_full_name = Some [], eu_email = None, eu_department = None \<rparr> hr)))"
  by (simp add: EmployeeUpdate_valid_def max_length_def full_name_ok_def hr_defs
      update_employee_def update_employee_precheck_def truthy_def update_employee_commit_def
      update_employee_row_def email_violation_def assign_fields_def status_defs)

subsection \<open>Ordering\<close>

lemma mset_insert_desc: "mset (insert_desc f x ys) = add_mset x (mset ys)"
  by (induction ys) auto

lemma mset_order_by_desc: "mset (order_by_desc f rows) = mset rows"
  by (induction rows) (auto simp: order_by_desc_def mset_insert_desc)

lemma set_insert_desc: "set (insert_desc f x ys) = insert x (set ys)"
  by (induction ys) auto

lemma descending_insert_desc:
  "descending f ys \<Longrightarrow> descending f (insert_desc f x ys)"
  by (induction ys) (auto simp: descending_def set_insert_desc)

lemma descending_order_by_desc: "descending f (order_by_desc f rows)"
proof (induction rows)
  case Nil
  show ?case by (simp add: order_by_desc_def descending_def)
next
  case (Cons x rows)
  then have "descending f (insert_desc f x (order_by_desc f rows))"
    by (rule descending_insert_desc)
  then show ?case by (simp add: order_by_desc_def)
qed

subsection \<open>Listing attendance\<close>

lemma list_attendance_rows:
  "list_attendance employee_id date_value status s =
     (Inr (200, order_by_desc (\<lambda>a. date_key (a_date a))
                  (filter (attendance_matches employee_id date_value status) (attendance s))), s)"
  by (cases employee_id; cases date_value; cases status)
     (simp_all add: list_attendance_def attendance_matches_def [abs_def] status_defs)

text \<open>
  C6, as the code has it. \<open>GET /api/attendance\<close> takes three optional filters, and the
  query parameters that carry them are named \<open>employee_id\<close>, \<open>date_value\<close> and \<open>status\<close>.
  When the three parse, the reply is 200 with exactly the stored attendance rows that pass
  every supplied filter (each as often as it is stored: nothing is skipped and nothing cut
  off, there is no pagination), in descending order of date, and the store is unchanged.
\<close>

theorem list_attendance_filtered:
  assumes "optional_param parse_int params ''employee_id'' = Inr employee_id"
    and "optional_param parse_date params ''date_value'' = Inr date_value"
    and "optional_param parse_status params ''status'' = Inr status"
  shows "\<exists>rows. get_api_attendance parse_int parse_date params s = (Inr (200, rows), s) \<and>
           mset rows = filter_mset (attendance_matches employee_id date_value status)
                         (mset (attendance s)) \<and>
           descending (\<lambda>a. date_key (a_date a)) rows"
proof -
  let ?rows = "order_by_desc (\<lambda>a. date_key (a_date a))
                  (filter (attendance_matches employee_id date_value status) (attendance s))"
  from assms have "get_api_attendance parse_int parse_date params s = (Inr (200, ?rows), s)"
    by (simp add: get_api_attendance_def list_attendance_rows)
  moreover have "mset ?rows = filter_mset (attendance_matches employee_id date_value status)
                         (mset (attendance s))"
    by (simp add: mset_order_by_desc)
  moreover have "descending (\<lambda>a. date_key (a_date a)) ?rows"
    by (rule descending_order_by_desc)
  ultimately show ?thesis by blast
qed

theorem list_attendance_filtered_witness:
  "optional_param int_of_text [''employee_id'' \<mapsto> ''1'', ''status'' \<mapsto> ''Present''] ''employee_id''
     = Inr (Some 1) \<and>
   optional_param date_of_text [''employee_id'' \<mapsto> ''1'', ''status'' \<mapsto> ''Present''] ''date_value''
     = Inr None \<and>
   optional_param parse_status [''employee_id'' \<mapsto> ''1'', ''status'' \<mapsto> ''Present''] ''status''
     = Inr (Some Present) \<and>
   get_api_attendance int_of_text date_of_text
       [''employee_id'' \<mapsto> ''1'', ''status'' \<mapsto> ''Present''] hr
     = (Inr (200, [ann_jan1]), hr) \<and>
   filter_mset (attendance_matches (Some 1) None (Some Present)) (mset (attendance hr))
     = {#ann_jan1#}"
proof -
  let ?q = "[''employee_id'' \<mapsto> ''1'', ''status'' \<mapsto> ''Present'']"
  have h1: "optional_param int_of_text ?q ''employee_id'' = Inr (Some 1)"
    by (simp add: optional_param_def int_of_text_def)
  have h2: "optional_param date_of_text ?q ''date_value'' = Inr None"
    by (simp add: optional_param_def)
  have h3: "optional_param parse_status ?q ''status'' = Inr (Some Present)"
    by (simp add: optional_param_def parse_status_def)
  have m: "filter_mset (attendance_matches (Some 1) None (Some Present)) (mset (attendance hr))
     = {#ann_jan1#}"
    by (simp add: attendance_matches_def hr_defs)
  from list_attendance_filtered [OF h1 h2 h3, of hr] m
  obtain rows where
    "get_api_attendance int_of_text date_of_text ?q hr = (Inr (200, rows), hr)"
    "mset rows = {#ann_jan1#}"
    by auto
  then have "get_api_attendance int_of_text date_of_text ?q hr = (Inr (200, [ann_jan1]), hr)"
    by (simp add: mset_single_iff_right)
  with h1 h2 h3 m show ?thesis by simp
qed

text \<open>
  The claim names the date filter \<open>date\<close>. A query parameter of that name binds to no
  argument of \<open>list_attendance\<close>, whose argument is \<open>date_value\<close>, and is ignored: asked
  for \<open>date=2024-01-02\<close> the route returns all three rows, Ann's of 1 January among them;
  asked for \<open>date_value=2024-01-02\<close> it returns the one row of that day.
\<close>

theorem list_attendance_date_counterexample:
  "get_api_attendance int_of_text date_of_text [''date'' \<mapsto> ''2024-01-02''] hr
     = (Inr (200, [ann_jan2, ann_jan1, bob_jan1]), hr) \<and>
   a_date ann_jan1 \<noteq> Date 2024 1 2 \<and>
   get_api_attendance int_of_text date_of_text [''date_value'' \<mapsto> ''2024-01-02''] hr
     = (Inr (200, [ann_jan2]), hr)"
  by (simp add: get_api_attendance_def optional_param_def date_of_text_def list_attendance_def
      order_by_desc_def date_key_def hr_defs status_defs)

subsection \<open>A commit the storage layer rejects\<close>

text \<open>
  The pre-check of a handler passes exactly when the statement it goes on to commit breaks
  no uniqueness or foreign-key constraint of the store it read.
\<close>

lemma create_employee_precheck_None:
  "create_employee_precheck employee_in s = None \<longleftrightarrow>
     \<not> employees_unique_violation (employees s) (ec_employee_id employee_in) (ec_email employee_in)"
  by (auto simp: create_employee_precheck_def employees_unique_violation_def find_None_set
      split: option.splits dest: find_Some_set)

lemma create_attendance_precheck_None:
  "create_attendance_precheck attendance_in s = None \<longleftrightarrow>
     \<not> attendance_violation s (ac_employee_id attendance_in) (ac_date attendance_in)"
  by (auto simp: create_attendance_precheck_def attendance_violation_def find_None_set
      split: option.splits dest: find_Some_set)

lemma update_employee_precheck_Inr:
  assumes "update_employee_precheck i employee_in s = Inr employee"
    and "eu_email employee_in \<noteq> Some []"
  shows "\<not> email_violation (employees s) employee (assign_fields employee_in employee)"
proof (cases "eu_email employee_in")
  case None
  then show ?thesis by (simp add: email_violation_def assign_fields_def)
next
  case (Some v)
  with assms(2) have v: "v \<noteq> []" by simp
  show ?thesis
  proof (cases "v = e_email employee")
    case True
    with Some show ?thesis by (simp add: email_violation_def assign_fields_def)
  next
    case False
    with assms(1) Some v
    have "find (\<lambda>r. Some (e_email r) = Some v) (employees s) = None"
      by (auto simp: update_employee_precheck_def truthy_def split: option.splits if_splits)
    then have "\<forall>r \<in> set (employees s). e_email r \<noteq> v" by (simp add: find_None_set)
    with Some show ?thesis by (simp add: email_violation_def assign_fields_def)
  qed
qed

text \<open>
  So a handler that runs its pre-check and its commit on one store, no request in between,
  is not rejected by the storage layer when the sequences are ahead of the stored ids, as
  they are in every store the API reaches (below).
\<close>

lemma create_employee_not_rejected:
  assumes "ids_below_seq s"
  shows "fst (create_employee now employee_in s) \<noteq> Inl IntegrityError"
proof (cases "create_employee_precheck employee_in s")
  case None
  then have "\<not> employees_unique_violation (employees s)
      (ec_employee_id employee_in) (ec_email employee_in)"
    by (simp add: create_employee_precheck_None)
  moreover from assms have "\<not> (\<exists>r \<in> set (employees s). e_id r = employees_id_seq s)"
    by (auto simp: ids_below_seq_def)
  ultimately show ?thesis
    using None
    by (simp add: create_employee_def create_employee_commit_def insert_employee_def Let_def)
next
  case (Some err)
  then show ?thesis
    by (auto simp: create_employee_def create_employee_precheck_def split: option.splits)
qed

lemma create_attendance_not_rejected:
  assumes "ids_below_seq s"
  shows "fst (create_attendance attendance_in s) \<noteq> Inl IntegrityError"
proof (cases "create_attendance_precheck attendance_in s")
  case None
  then have "\<not> attendance_violation s (ac_employee_id attendance_in) (ac_date attendance_in)"
    by (simp add: create_attendance_precheck_None)
  moreover from assms have "\<not> (\<exists>a \<in> set (attendance s). a_id a = attendance_id_seq s)"
    by (auto simp: ids_below_seq_def)
  ultimately show ?thesis
    using None
    by (simp add: create_attendance_def create_attendance_commit_def insert_attendance_def
        Let_def)
next
  case (Some err)
  then show ?thesis
    by (auto simp: create_attendance_def create_attendance_precheck_def split: option.splits)
qed

lemma update_employee_not_rejected:
  assumes "eu_email update_in \<noteq> Some []"
  shows "fst (update_employee i update_in s) \<noteq> Inl IntegrityError"
proof (cases "update_employee_precheck i update_in s")
  case (Inl err)
  then show ?thesis
    by (auto simp: update_employee_def update_employee_precheck_def
        split: option.splits if_splits)
next
  case (Inr employee)
  then have "\<not> email_violation (employees s) employee (assign_fields update_in employee)"
    using assms by (rule update_employee_precheck_Inr)
  with Inr show ?thesis
    by (simp add: update_employee_def update_employee_commit_def update_employee_row_def)
qed

text \<open>
  C9 fails when two requests race on a uniqueness constraint. The claim: a write that the
  storage layer rejects for a constraint violation is answered with the duplicate-key
  error, never with a raw storage error. No handler catches a failure of \<open>db.commit()\<close>.
  Two requests ask for one email. The pre-check of the first passes on the small database;
  the second request is then served whole and answered 201; the commit of the first runs
  on the store the second left, the unique index on \<open>email\<close> rejects it, and the reply is
  the raw \<open>IntegrityError\<close>. Had the first request been served whole on that store, its
  own pre-check would have answered the same duplicate with 400, \<open>Email is already in
  use\<close>. The same holds of two requests that record one employee's attendance on one day.
\<close>

theorem create_race_integrity_error:
  "create_employee_precheck cy hr = None \<and>
   fst (create_employee 30 cyd hr) =
     Inr (201, \<lparr> e_id = 3, e_employee_id = ''E4'', e_full_name = ''Cyd'',
                 e_email = ''cy@x.com'', e_department = Some ''Ops'', e_created_at = 30 \<rparr>) \<and>
   create_employee_commit 31 cy (snd (create_employee 30 cyd hr)) =
     (Inl IntegrityError, (snd (create_employee 30 cyd hr))\<lparr> employees_id_seq := 5 \<rparr>) \<and>
   create_employee 31 cy (snd (create_employee 30 cyd hr)) =
     (Inl (HTTPException 400 ''Email is already in use''), snd (create_employee 30 cyd hr)) \<and>
   create_attendance_precheck ann_jan3_present hr = None \<and>
   fst (create_attendance ann_jan3_absent hr) =
     Inr (201, \<lparr> a_id = 4, a_employee_id = 1, a_date = Date 2024 1 3, a_status = Absent \<rparr>) \<and>
   create_attendance_commit ann_jan3_present (snd (create_attendance ann_jan3_absent hr)) =
     (Inl IntegrityError, (snd (create_attendance ann_jan3_absent hr))\<lparr> attendance_id_seq := 6 \<rparr>) \<and>
   create_attendance ann_jan3_present (snd (create_attendance ann_jan3_absent hr)) =
     (Inl (HTTPException 400 ''Attendance already recorded for this employee and date''),
      snd (create_attendance ann_jan3_absent hr))"
  by (simp add: hr_defs cy_def cyd_def ann_jan3_present_def ann_jan3_absent_def
      create_employee_def create_employee_precheck_def create_employee_commit_def
      insert_employee_def employees_unique_violation_def
      create_attendance_def create_attendance_precheck_def create_attendance_commit_def
      insert_attendance_def attendance_violation_def Let_def status_defs)

subsection \<open>Listing employees\<close>

text \<open>
  Lower-casing leaves the wildcards and the backslash alone and makes no other character
  into one of them.
\<close>

lemma lower_char_percent: "lower_char c = CHR ''%'' \<longleftrightarrow> c = CHR ''%''"
  by (simp add: lower_char_def)

lemma lower_char_underscore: "lower_char c = CHR ''_'' \<longleftrightarrow> c = CHR ''_''"
  by (simp add: lower_char_def)

lemma lower_char_backslash: "lower_char c = CHR 0x5C \<longleftrightarrow> c = CHR 0x5C"
  by (simp add: lower_char_def)

lemma wildcard_free_lower:
  assumes "wildcard_free v"
  shows "wildcard_free (lower v)"
proof -
  have "CHR ''%'' \<notin> set (lower v)"
  proof
    assume "CHR ''%'' \<in> set (lower v)"
    then obtain c where "c \<in> set v" "lower_char c = CHR ''%''"
      by (auto simp: lower_def)
    with assms show False by (simp add: lower_char_percent wildcard_free_def)
  qed
  moreover have "CHR ''_'' \<notin> set (lower v)"
  proof
    assume "CHR ''_'' \<in> set (lower v)"
    then obtain c where "c \<in> set v" "lower_char c = CHR ''_''"
      by (auto simp: lower_def)
    with assms show False by (simp add: lower_char_underscore wildcard_free_def)
  qed
  moreover have "CHR 0x5C \<notin> set (lower v)"
  proof
    assume "CHR 0x5C \<in> set (lower v)"
    then obtain c where "c \<in> set v" "lower_char c = CHR 0x5C"
      by (auto simp: lower_def)
    with assms show False by (simp add: lower_char_backslash wildcard_free_def)
  qed
  ultimately show ?thesis by (simp add: wildcard_free_def)
qed

text \<open>
  What \<open>LIKE\<close> matches: a leading \<open>%\<close> lets the rest of the pattern start anywhere, and
  a run of ordinary characters matches itself.
\<close>

lemma like_percent: "like (CHR ''%'' # q) v \<longleftrightarrow> (\<exists>u w. v = u @ w \<and> like q w)"
proof (induction v)
  case Nil
  show ?case by simp
next
  case (Cons c cs)
  have "like (CHR ''%'' # q) (c # cs) \<longleftrightarrow> like q (c # cs) \<or> like (CHR ''%'' # q) cs"
    by simp
  also have "\<dots> \<longleftrightarrow> like q (c # cs) \<or> (\<exists>u w. cs = u @ w \<and> like q w)"
    by (simp only: Cons.IH)
  also have "\<dots> \<longleftrightarrow> (\<exists>u w. c # cs = u @ w \<and> like q w)"
  proof
    assume "like q (c # cs) \<or> (\<exists>u w. cs = u @ w \<and> like q w)"
    then show "\<exists>u w. c # cs = u @ w \<and> like q w"
    proof
      assume "like q (c # cs)"
      then have "c # cs = [] @ (c # cs) \<and> like q (c # cs)" by simp
      then show ?thesis by blast
    next
      assume "\<exists>u w. cs = u @ w \<and> like q w"
      then obtain u w where "cs = u @ w" "like q w" by blast
      then have "c # cs = (c # u) @ w \<and> like q w" by simp
      then show ?thesis by blast
    qed
  next
    assume "\<exists>u w. c # cs = u @ w \<and> like q w"
    then obtain u w where uw: "c # cs = u @ w" "like q w" by blast
    show "like q (c # cs) \<or> (\<exists>u w. cs = u @ w \<and> like q w)"
    proof (cases u)
      case Nil
      with uw show ?thesis by simp
    next
      case (Cons a u')
      with uw have "cs = u' @ w" by simp
      with uw(2) show ?thesis by blast
    qed
  qed
  finally show ?case .
qed

lemma like_percent_only: "like [CHR ''%''] v"
  by (induction v) auto

lemma like_literal:
  "wildcard_free n \<Longrightarrow> like (n @ q) v \<longleftrightarrow> (\<exists>w. v = n @ w \<and> like q w)"
proof (induction n arbitrary: v)
  case Nil
  show ?case by simp
next
  case (Cons p ps)
  then have p: "p \<noteq> CHR ''%''" "p \<noteq> CHR ''_''" and ps: "wildcard_free ps"
    by (auto simp: wildcard_free_def)
  show ?case
  proof (cases v)
    case Nil
    with p show ?thesis by simp
  next
    case (Cons c cs)
    with p have "like ((p # ps) @ q) v \<longleftrightarrow> p = c \<and> like (ps @ q) cs" by simp
    also have "\<dots> \<longleftrightarrow> p = c \<and> (\<exists>w. cs = ps @ w \<and> like q w)"
      using Cons.IH [OF ps] by simp
    also have "\<dots> \<longleftrightarrow> (\<exists>w. v = (p # ps) @ w \<and> like q w)"
      using Cons by auto
    finally show ?thesis .
  qed
qed

lemma prefix_of_iff: "prefix_of n v \<longleftrightarrow> (\<exists>w. v = n @ w)"
  by (induction n v rule: prefix_of.induct) auto

lemma substring_of_iff: "substring_of n v \<longleftrightarrow> (\<exists>u w. v = u @ n @ w)"
proof (induction v)
  case Nil
  show ?case by auto
next
  case (Cons c cs)
  show ?case
  proof
    assume "substring_of n (c # cs)"
    then consider "prefix_of n (c # cs)" | "substring_of n cs" by auto
    then show "\<exists>u w. c # cs = u @ n @ w"
    proof cases
      case 1
      then obtain w where "c # cs = n @ w" by (auto simp: prefix_of_iff)
      then have "c # cs = [] @ n @ w" by simp
      then show ?thesis by blast
    next
      case 2
      with Cons.IH obtain u w where "cs = u @ n @ w" by blast
      then have "c # cs = (c # u) @ n @ w" by simp
      then show ?thesis by blast
    qed
  next
    assume "\<exists>u w. c # cs = u @ n @ w"
    then obtain u w where uw: "c # cs = u @ n @ w" by blast
    show "substring_of n (c # cs)"
    proof (cases u)
      case Nil
      with uw have "prefix_of n (c # cs)" by (auto simp: prefix_of_iff)
      then show ?thesis by simp
    next
      case (Cons a u')
      with uw have "cs = u' @ n @ w" by simp
      with Cons.IH have "substring_of n cs" by blast
      then show ?thesis by simp
    qed
  qed
qed

text \<open>
  For a name filter without wildcard characters, \<open>ilike\<close> of the pattern line 264 builds
  is the substring test on the lower-cased texts.
\<close>

lemma like_contains:
  assumes "wildcard_free n"
  shows "like (CHR ''%'' # n @ [CHR ''%'']) v \<longleftrightarrow> substring_of n v"
proof -
  have "like (CHR ''%'' # n @ [CHR ''%'']) v
      \<longleftrightarrow> (\<exists>u w. v = u @ w \<and> like (n @ [CHR ''%'']) w)"
    by (rule like_percent)
  also have "\<dots> \<longleftrightarrow> (\<exists>u w. v = u @ w \<and> (\<exists>w'. w = n @ w' \<and> like [CHR ''%''] w'))"
    using like_literal [OF assms] by simp
  also have "\<dots> \<longleftrightarrow> (\<exists>u w'. v = u @ n @ w')"
    by (auto simp: like_percent_only)
  finally show ?thesis by (simp add: substring_of_iff)
qed

lemma ilike_contains:
  assumes "wildcard_free v"
  shows "ilike (CHR ''%'' # v @ ''%'') name \<longleftrightarrow> substring_of (lower v) (lower name)"
proof -
  have "lower (CHR ''%'' # v @ ''%'') = CHR ''%'' # lower v @ [CHR ''%'']"
    by (simp add: lower_def lower_char_def)
  with like_contains [OF wildcard_free_lower [OF assms]] show ?thesis
    by (simp add: ilike_def)
qed

text \<open>
  With such a name filter (or none) and \<open>skip\<close> and \<open>limit\<close> not negative,
  \<open>GET /api/employees\<close> answers 200 with a page of the filtered list: of the stored
  employees that pass every supplied filter, in descending order of \<open>created_at\<close>, the
  first \<open>skip\<close> are dropped and at most \<open>limit\<close> of the rest returned. \<open>skip\<close> is 0 and
  \<open>limit\<close> is 100 when the query string leaves them out. A negative \<open>skip\<close> or \<open>limit\<close>
  is the storage layer's \<open>DataError\<close>.
\<close>

lemma list_employees_rows:
  assumes "0 \<le> skip" and "0 \<le> limit"
    and "case full_name of None \<Rightarrow> True | Some v \<Rightarrow> wildcard_free v"
  shows "list_employees skip limit id' employee_id full_name email department s =
     (Inr (200, take (nat limit) (drop (nat skip) (order_by_desc e_created_at
         (filter (employee_matches id' employee_id full_name email department)
            (employees s))))), s)"
  using assms
  by (cases id'; cases employee_id; cases full_name; cases email; cases department)
     (simp_all add: list_employees_def employee_matches_def [abs_def] ilike_contains
        status_defs)

lemma get_api_employees_defaults:
  assumes "params ''skip'' = None" and "params ''limit'' = None"
    and "optional_param parse_int params ''id'' = Inr id'"
  shows "get_api_employees parse_int params s =
     list_employees 0 100 id' (params ''employee_id'') (params ''full_name'')
       (params ''email'') (params ''department'') s"
  using assms by (simp add: get_api_employees_def default_param_def)

lemma list_employees_page:
  assumes "default_param parse_int params ''skip'' 0 = Inr skip"
    and "default_param parse_int params ''limit'' 100 = Inr limit"
    and "optional_param parse_int params ''id'' = Inr id'"
    and "0 \<le> skip" and "0 \<le> limit"
    and "case params ''full_name'' of None \<Rightarrow> True | Some v \<Rightarrow> wildcard_free v"
  shows "\<exists>rows. get_api_employees parse_int params s =
             (Inr (200, take (nat limit) (drop (nat skip) rows)), s) \<and>
           mset rows = filter_mset
             (employee_matches id' (params ''employee_id'') (params ''full_name'')
                (params ''email'') (params ''department''))
             (mset (employees s)) \<and>
           descending e_created_at rows"
proof -
  let ?rows = "order_by_desc e_created_at
         (filter (employee_matches id' (params ''employee_id'') (params ''full_name'')
                (params ''email'') (params ''department'')) (employees s))"
  from assms have "get_api_employees parse_int params s =
             (Inr (200, take (nat limit) (drop (nat skip) ?rows)), s)"
    by (simp add: get_api_employees_def list_employees_rows)
  moreover have "mset ?rows = filter_mset
             (employee_matches id' (params ''employee_id'') (params ''full_name'')
                (params ''email'') (params ''department''))
             (mset (employees s))"
    by (simp add: mset_order_by_desc)
  moreover have "descending e_created_at ?rows"
    by (rule descending_order_by_desc)
  ultimately show ?thesis by blast
qed

lemma list_employees_negative:
  "skip < 0 \<or> limit < 0 \<Longrightarrow>
   list_employees skip limit id' employee_id full_name email department s = (Inl DataError, s)"
  by (auto simp: list_employees_def Let_def)


text \<open>
  C8 fails for a name filter that holds a wildcard. Line 264 puts the caller's text into
  the pattern as it is, so \<open>full_name=_\<close> is the pattern \<open>%_%\<close>, which matches every name
  of one character or more: the route returns Bob and Ann, though neither name contains an
  underscore and no stored employee passes the filter read as a substring test.
\<close>

theorem list_employees_wildcard:
  "get_api_employees int_of_text [''full_name'' \<mapsto> ''_''] hr = (Inr (200, [bob, ann]), hr) \<and>
   \<not> substring_of (lower ''_'') (lower (e_full_name ann)) \<and>
   \<not> substring_of (lower ''_'') (lower (e_full_name bob)) \<and>
   filter (employee_matches None None (Some ''_'') None None) (employees hr) = []"
  by (simp add: get_api_employees_def default_param_def optional_param_def list_employees_def
      ilike_def lower_def lower_char_def order_by_desc_def employee_matches_def hr_defs
      status_defs)

subsection \<open>The attendance constraints on every store the API reaches\<close>

text \<open>
  Each handler that writes takes a store whose attendance rows reference stored employees
  and hold every pair of employee and date once to a store of the same kind.
\<close>

lemma e_id_assign_fields: "e_id (assign_fields b r) = e_id r"
  by (simp add: assign_fields_def)

lemma references_employees_iff:
  "references_employees s \<longleftrightarrow>
     a_employee_id ` set (attendance s) \<subseteq> e_id ` set (employees s)"
proof
  assume r: "references_employees s"
  show "a_employee_id ` set (attendance s) \<subseteq> e_id ` set (employees s)"
  proof
    fix i assume "i \<in> a_employee_id ` set (attendance s)"
    then obtain a where "a \<in> set (attendance s)" "i = a_employee_id a" by blast
    with r obtain x where "x \<in> set (employees s)" "e_id x = i"
      by (auto simp: references_employees_def)
    then show "i \<in> e_id ` set (employees s)" by blast
  qed
next
  assume sub: "a_employee_id ` set (attendance s) \<subseteq> e_id ` set (employees s)"
  show "references_employees s"
    unfolding references_employees_def
  proof
    fix a assume "a \<in> set (attendance s)"
    with sub have "a_employee_id a \<in> e_id ` set (employees s)" by blast
    then show "\<exists>r \<in> set (employees s). e_id r = a_employee_id a" by force
  qed
qed

lemma insert_employee_tables:
  assumes "insert_employee now b s = (res, s')"
  shows "attendance s' = attendance s \<and> attendance_id_seq s' = attendance_id_seq s \<and>
         employees_id_seq s' = employees_id_seq s + 1 \<and>
         (case res of
            Inl err \<Rightarrow> employees s' = employees s
          | Inr row \<Rightarrow> employees s' = employees s @ [row] \<and> e_id row = employees_id_seq s)"
  using assms by (auto simp: insert_employee_def Let_def split: if_splits)

lemma insert_attendance_tables:
  assumes "insert_attendance b s = (res, s')"
  shows "employees s' = employees s \<and> employees_id_seq s' = employees_id_seq s \<and>
         attendance_id_seq s' = attendance_id_seq s + 1 \<and>
         (case res of
            Inl err \<Rightarrow> attendance s' = attendance s
          | Inr row \<Rightarrow> attendance s' = attendance s @ [row] \<and>
                        a_id row = attendance_id_seq s \<and>
                        a_employee_id row = ac_employee_id b \<and>
                        \<not> attendance_violation s (ac_employee_id b) (ac_date b))"
  using assms by (auto simp: insert_attendance_def Let_def split: if_splits)

lemma create_employee_store_ok:
  assumes "store_ok s"
  shows "store_ok (snd (create_employee now b s))"
proof (cases "create_employee_precheck b s")
  case (Some err)
  with assms show ?thesis by (simp add: create_employee_def)
next
  case None
  obtain res s' where ins: "insert_employee now b s = (res, s')"
    by (cases "insert_employee now b s")
  from insert_employee_tables [OF ins] assms have "store_ok s'"
    by (cases res) (auto simp: store_ok_def references_employees_iff)
  with None ins show ?thesis
    by (cases res) (simp_all add: create_employee_def create_employee_commit_def)
qed

lemma update_employee_store_ok:
  assumes "store_ok s"
  shows "store_ok (snd (update_employee i b s))"
proof (cases "update_employee_precheck i b s")
  case (Inl err)
  with assms show ?thesis by (simp add: update_employee_def)
next
  case (Inr employee)
  show ?thesis
  proof (cases "update_employee_row employee b s")
    case (Inl err)
    with Inr assms show ?thesis
      by (simp add: update_employee_def update_employee_commit_def)
  next
    case row: (Inr s')
    then have ids: "map e_id (employees s') = map e_id (employees s)"
      and att: "attendance s' = attendance s"
      by (auto simp: update_employee_row_def e_id_assign_fields split: if_splits)
    have "e_id ` set (employees s') = set (map e_id (employees s'))" by simp
    also have "\<dots> = e_id ` set (employees s)" by (simp only: ids set_map)
    finally have "e_id ` set (employees s') = e_id ` set (employees s)" .
    with assms att have "store_ok s'"
      by (simp add: store_ok_def references_employees_iff)
    with Inr row show ?thesis
      by (simp add: update_employee_def update_employee_commit_def)
  qed
qed

lemma delete_employee_store_ok:
  assumes "store_ok s"
  shows "store_ok (snd (delete_employee i s))"
proof (cases "find (\<lambda>r. e_id r = i) (employees s)")
  case None
  with assms show ?thesis by (simp add: delete_employee_def)
next
  case (Some employee)
  then have i: "e_id employee = i" using find_Some_set by fastforce
  from assms have sub: "a_employee_id ` set (attendance s) \<subseteq> e_id ` set (employees s)"
    by (simp add: store_ok_def references_employees_iff)
  have "a_employee_id ` set (attendance (delete_employee_row i s))
      \<subseteq> e_id ` set (employees (delete_employee_row i s))"
  proof
    fix j assume "j \<in> a_employee_id ` set (attendance (delete_employee_row i s))"
    then obtain a where a: "a \<in> set (attendance s)" "a_employee_id a \<noteq> i" "j = a_employee_id a"
      by (auto simp: delete_employee_row_def)
    with sub obtain r where "r \<in> set (employees s)" "e_id r = j" by force
    with a show "j \<in> e_id ` set (employees (delete_employee_row i s))"
      by (force simp: delete_employee_row_def)
  qed
  then have "references_employees (delete_employee_row i s)"
    by (simp add: references_employees_iff)
  moreover from assms have "uq_employee_date (attendance (delete_employee_row i s))"
    by (simp add: store_ok_def uq_employee_date_def delete_employee_row_def distinct_map_filter)
  ultimately show ?thesis
    using Some i by (simp add: delete_employee_def store_ok_def)
qed

lemma create_attendance_store_ok:
  assumes "store_ok s"
  shows "store_ok (snd (create_attendance b s))"
proof (cases "create_attendance_precheck b s")
  case (Some err)
  with assms show ?thesis by (simp add: create_attendance_def)
next
  case None
  obtain res s' where ins: "insert_attendance b s = (res, s')"
    by (cases "insert_attendance b s")
  with assms have uq: "uq_employee_date (attendance s')"
    using insert_attendance_unique by (auto simp: store_ok_def)
  have "references_employees s'"
  proof (cases res)
    case (Inl err)
    with insert_attendance_tables [OF ins] assms show ?thesis
      by (simp add: store_ok_def references_employees_iff)
  next
    case (Inr row)
    with insert_attendance_tables [OF ins]
    have tabs: "employees s' = employees s" "attendance s' = attendance s @ [row]"
        "a_employee_id row = ac_employee_id b"
      and ok: "\<not> attendance_violation s (ac_employee_id b) (ac_date b)"
      by simp_all
    from ok obtain r where "r \<in> set (employees s)" "e_id r = ac_employee_id b"
      by (auto simp: attendance_violation_def)
    then have "ac_employee_id b \<in> e_id ` set (employees s)" by force
    with tabs assms show ?thesis
      by (simp add: store_ok_def references_employees_iff)
  qed
  with uq None ins show ?thesis
    by (cases res)
       (simp_all add: create_attendance_def create_attendance_commit_def store_ok_def)
qed

lemma update_attendance_row_keys:
  "map (\<lambda>a. (a_employee_id a, a_date a)) (attendance (update_attendance_row i st s))
     = map (\<lambda>a. (a_employee_id a, a_date a)) (attendance s)"
  by (simp add: update_attendance_row_def comp_def if_distrib cong: if_cong)

lemma update_attendance_store_ok:
  assumes "store_ok s"
  shows "store_ok (snd (update_attendance i b s))"
proof (cases "find (\<lambda>a. a_id a = i) (attendance s)")
  case None
  with assms show ?thesis by (simp add: update_attendance_def)
next
  case (Some row)
  let ?s' = "update_attendance_row (a_id row) (au_status b) s"
  have keys: "map (\<lambda>a. (a_employee_id a, a_date a)) (attendance ?s')
        = map (\<lambda>a. (a_employee_id a, a_date a)) (attendance s)"
    by (rule update_attendance_row_keys)
  have "map a_employee_id (attendance ?s') = map a_employee_id (attendance s)"
    by (simp add: update_attendance_row_def comp_def if_distrib cong: if_cong)
  then have "set (map a_employee_id (attendance ?s')) = set (map a_employee_id (attendance s))"
    by (rule arg_cong)
  then have "a_employee_id ` set (attendance ?s') = a_employee_id ` set (attendance s)"
    by (simp only: set_map)
  moreover have "employees ?s' = employees s"
    by (simp add: update_attendance_row_def)
  ultimately have "store_ok ?s'"
    using assms keys by (simp add: store_ok_def references_employees_iff uq_employee_date_def)
  with Some show ?thesis by (simp add: update_attendance_def)
qed

lemma delete_attendance_store_ok:
  assumes "store_ok s"
  shows "store_ok (snd (delete_attendance i s))"
proof (cases "find (\<lambda>a. a_id a = i) (attendance s)")
  case None
  with assms show ?thesis by (simp add: delete_attendance_def)
next
  case (Some row)
  from assms have "references_employees (delete_attendance_row (a_id row) s)"
    by (auto simp: store_ok_def references_employees_iff delete_attendance_row_def)
  moreover from assms have "uq_employee_date (attendance (delete_attendance_row (a_id row) s))"
    by (simp add: store_ok_def uq_employee_date_def delete_attendance_row_def distinct_map_filter)
  ultimately show ?thesis using Some by (simp add: delete_attendance_def store_ok_def)
qed

text \<open>
  So the two constraints hold in every store that a sequence of requests, served one
  after the other, leaves of the empty database: at most one attendance row exists per
  employee and day, and each references a stored employee.
\<close>

lemma serve_store_ok: "store_ok s \<Longrightarrow> store_ok (serve r s)"
  by (cases r)
     (simp_all add: create_employee_store_ok update_employee_store_ok delete_employee_store_ok
        create_attendance_store_ok update_attendance_store_ok delete_attendance_store_ok)

lemma serve_all_store_ok: "store_ok s \<Longrightarrow> store_ok (serve_all rs s)"
  by (induction rs arbitrary: s) (simp_all add: serve_all_def serve_store_ok)

lemma reachable_store_ok: "store_ok (serve_all rs empty_store)"
  by (rule serve_all_store_ok)
     (simp add: store_ok_def references_employees_def uq_employee_date_def empty_store_def)

text \<open>
  The sequences stay ahead of the stored ids, so in those stores the primary key of a new
  row is never taken.
\<close>

lemma create_employee_ids_below_seq:
  assumes "ids_below_seq s"
  shows "ids_below_seq (snd (create_employee now b s))"
proof (cases "create_employee_precheck b s")
  case (Some err)
  with assms show ?thesis by (simp add: create_employee_def)
next
  case None
  obtain res s' where ins: "insert_employee now b s = (res, s')"
    by (cases "insert_employee now b s")
  from insert_employee_tables [OF ins] assms have "ids_below_seq s'"
    by (cases res) (auto simp: ids_below_seq_def)
  with None ins show ?thesis
    by (cases res) (simp_all add: create_employee_def create_employee_commit_def)
qed

lemma update_employee_ids_below_seq:
  assumes "ids_below_seq s"
  shows "ids_below_seq (snd (update_employee i b s))"
proof (cases "update_employee_precheck i b s")
  case (Inl err)
  with assms show ?thesis by (simp add: update_employee_def)
next
  case (Inr employee)
  show ?thesis
  proof (cases "update_employee_row employee b s")
    case (Inl err)
    with Inr assms show ?thesis
      by (simp add: update_employee_def update_employee_commit_def)
  next
    case row: (Inr s')
    then have s': "s' = s\<lparr> employees :=
        map (\<lambda>r. if e_id r = e_id employee then assign_fields b r else r) (employees s) \<rparr>"
      by (auto simp: update_employee_row_def split: if_splits)
    have "\<forall>r \<in> set (employees s'). e_id r < employees_id_seq s'"
    proof
      fix r assume "r \<in> set (employees s')"
      with s' obtain x where x: "x \<in> set (employees s)"
          "r = (if e_id x = e_id employee then assign_fields b x else x)"
        by auto
      then have "e_id r = e_id x" by (simp add: e_id_assign_fields)
      with x(1) assms s' show "e_id r < employees_id_seq s'"
        by (simp add: ids_below_seq_def)
    qed
    with assms s' have "ids_below_seq s'"
      by (simp add: ids_below_seq_def)
    with Inr row show ?thesis
      by (simp add: update_employee_def update_employee_commit_def)
  qed
qed

lemma delete_employee_ids_below_seq:
  assumes "ids_below_seq s"
  shows "ids_below_seq (snd (delete_employee i s))"
  using assms
  by (auto simp: delete_employee_def delete_employee_row_def ids_below_seq_def
      split: option.splits)

lemma create_attendance_ids_below_seq:
  assumes "ids_below_seq s"
  shows "ids_below_seq (snd (create_attendance b s))"
proof (cases "create_attendance_precheck b s")
  case (Some err)
  with assms show ?thesis by (simp add: create_attendance_def)
next
  case None
  obtain res s' where ins: "insert_attendance b s = (res, s')"
    by (cases "insert_attendance b s")
  from insert_attendance_tables [OF ins] assms have "ids_below_seq s'"
    by (cases res) (auto simp: ids_below_seq_def)
  with None ins show ?thesis
    by (cases res) (simp_all add: create_attendance_def create_attendance_commit_def)
qed

lemma update_attendance_ids_below_seq:
  assumes "ids_below_seq s"
  shows "ids_below_seq (snd (update_attendance i b s))"
  using assms
  by (auto simp: update_attendance_def update_attendance_row_def ids_below_seq_def
      split: option.splits)

lemma delete_attendance_ids_below_seq:
  assumes "ids_below_seq s"
  shows "ids_below_seq (snd (delete_attendance i s))"
  using assms
  by (auto simp: delete_attendance_def delete_attendance_row_def ids_below_seq_def
      split: option.splits)

lemma serve_ids_below_seq: "ids_below_seq s \<Longrightarrow> ids_below_seq (serve r s)"
  by (cases r)
     (simp_all add: create_employee_ids_below_seq update_employee_ids_below_seq
        delete_employee_ids_below_seq create_attendance_ids_below_seq
        update_attendance_ids_below_seq delete_attendance_ids_below_seq)

lemma serve_all_ids_below_seq: "ids_below_seq s \<Longrightarrow> ids_below_seq (serve_all rs s)"
  by (induction rs arbitrary: s) (simp_all add: serve_all_def serve_ids_below_seq)

lemma reachable_ids_below_seq: "ids_below_seq (serve_all rs empty_store)"
  by (rule serve_all_ids_below_seq) (simp add: ids_below_seq_def empty_store_def)

end
